theory Spec2Isabelle
  imports Main "HOL-Library.Multiset" "HOL-Library.Sublist" "HOL-Library.List_Lexorder"
    "HOL-Library.Char_ord"
begin

section \<open>JavaScript strings and arrays\<close>

text \<open>
  Strings are \<^typ>\<open>string\<close>, compared character by character in the order of the
  character codes, which is the order \<^verbatim>\<open>Array.prototype.sort()\<close> uses when it is called
  without a comparator. Item names, keywords, category labels and page texts are taken
  to be ASCII: \<^verbatim>\<open>toLowerCase\<close> maps \<^verbatim>\<open>A\<close>..\<^verbatim>\<open>Z\<close> to \<^verbatim>\<open>a\<close>..\<^verbatim>\<open>z\<close> and leaves every other
  character alone, and \<^verbatim>\<open>trim\<close> removes the ASCII white space. The one character
  outside ASCII, the seedling of the message header, is its four UTF-8 bytes.
\<close>

definition toLowerCaseChar :: "char \<Rightarrow> char" where
  "toLowerCaseChar c =
     (case map_of (zip ''ABCDEFGHIJKLMNOPQRSTUVWXYZ'' ''abcdefghijklmnopqrstuvwxyz'') c of
        None \<Rightarrow> c
      | Some l \<Rightarrow> l)"

definition toLowerCase :: "string \<Rightarrow> string" where
  "toLowerCase s = map toLowerCaseChar s"

text \<open>\<^verbatim>\<open>s.includes(sub)\<close>: \<open>sub\<close> occurs in \<open>s\<close> as a contiguous block.\<close>

fun str_includes :: "string \<Rightarrow> string \<Rightarrow> bool" where
  "str_includes [] sub = (sub = [])"
| "str_includes (c # cs) sub = (prefix sub (c # cs) \<or> str_includes cs sub)"

text \<open>\<^verbatim>\<open>xs.join(',')\<close>.\<close>

fun join :: "string list \<Rightarrow> string" where
  "join [] = []"
| "join [x] = x"
| "join (x # y # ys) = x @ '','' @ join (y # ys)"

section \<open>Data model\<close>

text \<open>
  An element of a category array is either an object whose \<^verbatim>\<open>name\<close> is a string, or
  anything else (\<^verbatim>\<open>null\<close>, an object without a \<^verbatim>\<open>name\<close>, a \<^verbatim>\<open>name\<close> that is not a
  string).
\<close>

datatype item = Named string | Malformed

text \<open>
  A snapshot. A field is \<open>Some items\<close> when the property holds an array and \<open>None\<close> when
  it is missing, falsy or not an array. \<open>property stock catKey\<close> is \<^verbatim>\<open>stock[catKey]\<close>.
\<close>

record stock =
  seedsStock :: "item list option"
  eggStock :: "item list option"
  gearStock :: "item list option"

datatype catKey = SeedsStock | EggStock | GearStock

fun property :: "stock \<Rightarrow> catKey \<Rightarrow> item list option" where
  "property stock SeedsStock = seedsStock stock"
| "property stock EggStock = eggStock stock"
| "property stock GearStock = gearStock stock"

text \<open>
  The keys in the order both files visit them: \<^verbatim>\<open>Object.keys(stock)\<close> of the object
  built by \<^verbatim>\<open>scraper.js\<close>, and the array \<^verbatim>\<open>categories\<close> of \<^verbatim>\<open>FetchData.js\<close>.
\<close>

definition categories :: "catKey list" where
  "categories = [SeedsStock, EggStock, GearStock]"

record matchResult =
  name :: string
  category :: string
  matchedKeyword :: string

text \<open>The three module-level variables of \<^verbatim>\<open>app.js\<close> and of \<^verbatim>\<open>FetchData.js\<close>.\<close>

record state =
  notifiedItemsThisOverallStockCycle :: "string set"
  previousOverallStockSignature :: string
  isCheckRunning :: bool

text \<open>The key \<^verbatim>\<open>`${item.name}|${category}`\<close> under which an item is remembered.\<close>

definition token :: "string \<Rightarrow> string \<Rightarrow> string" where
  "token itemName categoryName = itemName @ ''|'' @ categoryName"

text \<open>The key of a found item, \<^verbatim>\<open>`${item.name}|${item.category}`\<close>.\<close>

definition resultToken :: "matchResult \<Rightarrow> string" where
  "resultToken item = token (name item) (category item)"

text \<open>What an awaited call does: it resolves to a value, or it throws.\<close>

datatype 'a outcome = Returned 'a | Threw

text \<open>How one invocation of the stock check ends, with the items it found and the
  message it built.\<close>

datatype report =
    Skipped
  | NoData
  | NothingNew
  | QuietSuppressed "matchResult list" string
  | AlertSent "matchResult list" string
  | AlertFailed "matchResult list" string
  | FatalError "matchResult list"

fun found :: "report \<Rightarrow> matchResult list" where
  "found (QuietSuppressed items body) = items"
| "found (AlertSent items body) = items"
| "found (AlertFailed items body) = items"
| "found (FatalError items) = items"
| "found r = []"

definition batchTokens :: "report \<Rightarrow> string list" where
  "batchTokens r = map resultToken (found r)"

definition newline :: string where
  "newline = [CHR 0x0A]"

definition seedling :: string where
  "seedling = [CHR 0xF0, CHR 0x9F, CHR 0x8C, CHR 0xB1]"

section \<open>The stock check of \<^verbatim>\<open>app.js\<close>\<close>

text \<open>
  \<^verbatim>\<open>app.js\<close> is the third document of \<^verbatim>\<open>src/Dockerfile\<close> (lines 87-325); the line
  numbers below are those of that file. The constants it imports from \<^verbatim>\<open>config.js\<close>
  are parameters.
\<close>

record config =
  QUIET_HOURS_START :: int
  QUIET_HOURS_END :: int
  KEYWORDS_TO_MONITOR :: "string list"

text \<open>
  \<^verbatim>\<open>isQuietHours\<close>. \<^verbatim>\<open>QUIET_HOURS_START\<close>, \<^verbatim>\<open>QUIET_HOURS_END\<close> (read from the environment
  by \<^verbatim>\<open>config.js\<close>) and the current hour are parameters.
\<close>

definition isQuietHours :: "int \<Rightarrow> int \<Rightarrow> int \<Rightarrow> bool" where
  "isQuietHours quietStart quietEnd hour =
     (if quietStart < quietEnd
      then hour \<ge> quietStart \<and> hour < quietEnd
      else hour \<ge> quietStart \<or> hour < quietEnd)"

fun categoryMap :: "catKey \<Rightarrow> string" where
  "categoryMap SeedsStock = ''Seeds''"
| "categoryMap EggStock = ''Egg''"
| "categoryMap GearStock = ''Gear/Honey/Cosmetics''"

text \<open>Lines 218-229: the tokens of every item with a truthy name, sorted and joined.\<close>

fun itemTokens :: "string \<Rightarrow> item list \<Rightarrow> string list" where
  "itemTokens label [] = []"
| "itemTokens label (Malformed # items) = itemTokens label items"
| "itemTokens label (Named itemName # items) =
     (if itemName \<noteq> [] then token itemName label # itemTokens label items
      else itemTokens label items)"

definition allCurrentStockItems :: "stock \<Rightarrow> string list" where
  "allCurrentStockItems stock =
     concat (map (\<lambda>catKey. case property stock catKey of
                                 None \<Rightarrow> []
                               | Some items \<Rightarrow> itemTokens (categoryMap catKey) items)
                 categories)"

definition currentOverallStockSignature :: "stock \<Rightarrow> string" where
  "currentOverallStockSignature stock = join (sort (allCurrentStockItems stock))"

text \<open>Lines 231-235 (and 552-560 of \<^verbatim>\<open>FetchData.js\<close>): a new signature clears the set
  and is stored.\<close>

definition detectChange :: "string \<Rightarrow> state \<Rightarrow> state" where
  "detectChange signature s =
     (if signature \<noteq> previousOverallStockSignature s
      then s\<lparr>notifiedItemsThisOverallStockCycle := {},
             previousOverallStockSignature := signature\<rparr>
      else s)"

text \<open>
  Lines 237-257: the scan. The set is tested first, then the first keyword contained in
  the lower-cased name is looked up, and a match is pushed and marked at once, so a
  later item of the same scan sees the mark. \<^verbatim>\<open>if (matchedKeyword)\<close> is false for the
  empty keyword.
\<close>

definition matchKeyword :: "string list \<Rightarrow> string \<Rightarrow> string option" where
  "matchKeyword keywords itemName =
     find (\<lambda>kw. str_includes (toLowerCase itemName) (toLowerCase kw)) keywords"

fun scanItems ::
  "string list \<Rightarrow> string \<Rightarrow> item list \<Rightarrow> string set \<times> matchResult list
     \<Rightarrow> string set \<times> matchResult list" where
  "scanItems keywords label [] acc = acc"
| "scanItems keywords label (Malformed # items) acc = scanItems keywords label items acc"
| "scanItems keywords label (Named itemName # items) (notified, newlyFound) =
     scanItems keywords label items
       (if itemName = [] then (notified, newlyFound)
        else if token itemName label \<in> notified then (notified, newlyFound)
        else (case matchKeyword keywords itemName of
                None \<Rightarrow> (notified, newlyFound)
              | Some kw \<Rightarrow>
                  if kw = [] then (notified, newlyFound)
                  else (insert (token itemName label) notified,
                        newlyFound @ [\<lparr>name = itemName, category = label,
                                        matchedKeyword = kw\<rparr>])))"

fun scanCategories ::
  "string list \<Rightarrow> stock \<Rightarrow> catKey list \<Rightarrow> string set \<times> matchResult list
     \<Rightarrow> string set \<times> matchResult list" where
  "scanCategories keywords stock [] acc = acc"
| "scanCategories keywords stock (catKey # rest) acc =
     scanCategories keywords stock rest
       (case property stock catKey of
          None \<Rightarrow> acc
        | Some items \<Rightarrow> scanItems keywords (categoryMap catKey) items acc)"

text \<open>Lines 260-263: the message.\<close>

definition messageLine :: "matchResult \<Rightarrow> string" where
  "messageLine item =
     newline @ ''- *'' @ name item @ ''* (Category: '' @ category item @ '')''"

definition messageBody :: "matchResult list \<Rightarrow> string" where
  "messageBody newlyFound =
     ''*Grow A Garden Stock Alert!* '' @ seedling @ newline @ newline
       @ ''New items in stock:'' @ newline @ concat (map messageLine newlyFound)"

text \<open>
  \<^verbatim>\<open>checkStockAndNotify\<close> is an \<^verbatim>\<open>async\<close> function with two suspension points, the fetch
  and the send. It is modelled by its three synchronous stretches: \<open>enter\<close> runs up to
  the fetch, \<open>afterFetch\<close> from there to the send or to the end, \<open>afterSend\<close> to the
  end. Every stretch that ends the invocation runs the \<^verbatim>\<open>finally\<close> block.
\<close>

datatype pending = AwaitSend "matchResult list" string | Finished report

text \<open>Lines 197-201: \<open>None\<close> when the invocation returns at once, the lock being held.\<close>

definition enter :: "state \<Rightarrow> state option" where
  "enter s = (if isCheckRunning s then None else Some (s\<lparr>isCheckRunning := True\<rparr>))"

definition finallyBlock :: "state \<Rightarrow> state" where
  "finallyBlock s = s\<lparr>isCheckRunning := False\<rparr>"

definition afterFetch :: "config \<Rightarrow> state \<Rightarrow> stock option outcome \<Rightarrow> int \<Rightarrow> state \<times> pending" where
  "afterFetch cfg s fetched hour =
     (case fetched of
        Threw \<Rightarrow> (finallyBlock s, Finished (FatalError []))
      | Returned None \<Rightarrow> (finallyBlock s, Finished NoData)
      | Returned (Some stock) \<Rightarrow>
          (let s1 = detectChange (currentOverallStockSignature stock) s;
               (notified, newlyFound) =
                  scanCategories (KEYWORDS_TO_MONITOR cfg) stock categories
                    (notifiedItemsThisOverallStockCycle s1, []);
               s2 = s1\<lparr>notifiedItemsThisOverallStockCycle := notified\<rparr>
           in if length newlyFound > 0
              then (if isQuietHours (QUIET_HOURS_START cfg) (QUIET_HOURS_END cfg) hour
                    then (finallyBlock s2,
                          Finished (QuietSuppressed newlyFound (messageBody newlyFound)))
                    else (s2, AwaitSend newlyFound (messageBody newlyFound)))
              else (finallyBlock s2, Finished NothingNew)))"

definition afterSend :: "state \<Rightarrow> matchResult list \<Rightarrow> string \<Rightarrow> bool outcome \<Rightarrow> state \<times> report" where
  "afterSend s newlyFound body sent =
     (finallyBlock s,
      case sent of
        Returned success \<Rightarrow>
          if success then AlertSent newlyFound body else AlertFailed newlyFound body
      | Threw \<Rightarrow> FatalError newlyFound)"

text \<open>One invocation run to its end, given what the fetch and the send answer and the
  hour the clock shows.\<close>

definition checkStockAndNotify ::
  "config \<Rightarrow> state \<Rightarrow> stock option outcome \<Rightarrow> int \<Rightarrow> bool outcome \<Rightarrow> state \<times> report" where
  "checkStockAndNotify cfg s fetched hour sent =
     (case enter s of
        None \<Rightarrow> (s, Skipped)
      | Some s0 \<Rightarrow>
          (case afterFetch cfg s0 fetched hour of
             (s1, Finished r) \<Rightarrow> (s1, r)
           | (s1, AwaitSend items body) \<Rightarrow> afterSend s1 items body sent))"

text \<open>
  A sequence of invocations, each run to its end before the next starts: the state
  after each, and its report. An element of \<open>answers\<close> is what the fetch answers, the
  hour, and what the send answers.
\<close>

type_synonym answers = "stock option outcome \<times> int \<times> bool outcome"

fun cycles :: "config \<Rightarrow> state \<Rightarrow> answers list \<Rightarrow> (state \<times> report) list" where
  "cycles cfg s [] = []"
| "cycles cfg s ((fetched, hour, sent) # rest) =
     (let (s', r) = checkStockAndNotify cfg s fetched hour sent
      in (s', r) # cycles cfg s' rest)"

section \<open>The stock check of \<^verbatim>\<open>FetchData.js\<close>\<close>

text \<open>
  The older single-file program, in its latest version, which has the scheduler and the
  quiet hours: the third document of \<^verbatim>\<open>src/FetchData.js\<close> (lines 345-683). Its
  constants are parameters; \<open>twilioClient\<close> says whether the client was created.
\<close>

record config_FetchData =
  TARGET_MINUTES :: "int list"
  TARGET_SECONDS :: int
  TIMEZONE :: string
  quietHoursStart :: int
  quietHoursEnd :: int
  keywordsToMonitor :: "string list"
  twilioClient :: bool

text \<open>The fields of the result of \<^verbatim>\<open>getCurrentTimeInJerusalem\<close> that the check reads.\<close>

record currentTime =
  hour :: int
  minute :: int
  second :: int
  formatted :: string

text \<open>\<^verbatim>\<open>isQuietHours\<close> of \<^verbatim>\<open>FetchData.js\<close>: one interval test, no overnight branch.\<close>

definition isQuietHours_FetchData :: "int \<Rightarrow> int \<Rightarrow> int \<Rightarrow> bool" where
  "isQuietHours_FetchData quietStart quietEnd currentHour =
     (if currentHour \<ge> quietStart \<and> currentHour < quietEnd then True else False)"

text \<open>
  \<^verbatim>\<open>findNewKeywordItemsInCategory\<close>. The inner loop over the keywords stops at the first
  keyword the lower-cased name contains (\<^verbatim>\<open>break\<close>), whether or not the item is pushed.
\<close>

fun scanKeywords :: "string \<Rightarrow> string \<Rightarrow> string set \<Rightarrow> string list \<Rightarrow> matchResult list" where
  "scanKeywords itemName categoryName notifiedItemsSet [] = []"
| "scanKeywords itemName categoryName notifiedItemsSet (keyword # rest) =
     (if str_includes (toLowerCase itemName) (toLowerCase keyword)
      then (if token itemName categoryName \<notin> notifiedItemsSet
            then [\<lparr>name = itemName, category = categoryName, matchedKeyword = keyword\<rparr>]
            else [])
      else scanKeywords itemName categoryName notifiedItemsSet rest)"

fun findInItems :: "item list \<Rightarrow> string \<Rightarrow> string list \<Rightarrow> string set \<Rightarrow> matchResult list" where
  "findInItems [] categoryName currentKeywords notifiedItemsSet = []"
| "findInItems (Malformed # items) categoryName currentKeywords notifiedItemsSet =
     findInItems items categoryName currentKeywords notifiedItemsSet"
| "findInItems (Named itemName # items) categoryName currentKeywords notifiedItemsSet =
     scanKeywords itemName categoryName notifiedItemsSet currentKeywords
       @ findInItems items categoryName currentKeywords notifiedItemsSet"

definition findNewKeywordItemsInCategory ::
  "item list option \<Rightarrow> string \<Rightarrow> string list \<Rightarrow> string set \<Rightarrow> matchResult list" where
  "findNewKeywordItemsInCategory items categoryName currentKeywords notifiedItemsSet =
     (case items of
        None \<Rightarrow> []
      | Some its \<Rightarrow> findInItems its categoryName currentKeywords notifiedItemsSet)"

fun categoryMap_FetchData :: "catKey \<Rightarrow> string" where
  "categoryMap_FetchData SeedsStock = ''Seed''"
| "categoryMap_FetchData EggStock = ''Egg''"
| "categoryMap_FetchData GearStock = ''Gear''"

text \<open>Lines 533-550: the tokens of every item whose name is a string, sorted and joined.\<close>

fun itemTokens_FetchData :: "string \<Rightarrow> item list \<Rightarrow> string list" where
  "itemTokens_FetchData label [] = []"
| "itemTokens_FetchData label (Malformed # items) = itemTokens_FetchData label items"
| "itemTokens_FetchData label (Named itemName # items) =
     token itemName label # itemTokens_FetchData label items"

definition allCurrentStockItemsForSignature :: "stock \<Rightarrow> string list" where
  "allCurrentStockItemsForSignature stockData =
     concat (map (\<lambda>catKey. case property stockData catKey of
                                 None \<Rightarrow> []
                               | Some items \<Rightarrow>
                                   itemTokens_FetchData (categoryMap_FetchData catKey) items)
                 categories)"

definition currentOverallStockSignature_FetchData :: "stock \<Rightarrow> string" where
  "currentOverallStockSignature_FetchData stockData =
     join (sort (allCurrentStockItemsForSignature stockData))"

text \<open>Lines 562-567: the matcher over the three categories, against the set as it is.\<close>

definition newlyFoundKeywordItems :: "string list \<Rightarrow> stock \<Rightarrow> string set \<Rightarrow> matchResult list" where
  "newlyFoundKeywordItems keywords stockData notifiedItemsSet =
     concat (map (\<lambda>catKey. findNewKeywordItemsInCategory (property stockData catKey)
                                 (categoryMap_FetchData catKey) keywords notifiedItemsSet)
                 categories)"

text \<open>Lines 570-575: the message.\<close>

definition messageLine_FetchData :: "matchResult \<Rightarrow> string" where
  "messageLine_FetchData item =
     newline @ ''- *'' @ name item @ ''* (Category: '' @ category item @ '', Keyword: ''
       @ [CHR 0x22] @ matchedKeyword item @ [CHR 0x22] @ '')''"

definition messageBody_FetchData :: "config_FetchData \<Rightarrow> currentTime \<Rightarrow> matchResult list \<Rightarrow> string" where
  "messageBody_FetchData cfg currentTimeDetails newlyFound =
     ''*GrowAGarden Stock Alert!* '' @ seedling @ '' ('' @ formatted currentTimeDetails
       @ '' '' @ TIMEZONE cfg @ '')'' @ newline @ newline
       @ ''New keyword items in stock:'' @ newline
       @ concat (map messageLine_FetchData newlyFound)
       @ newline @ newline
       @ ''Check now: https://www.roblox.com/games/126884695634066/Grow-a-Garden#ropro-quick-play''"

text \<open>Lines 579-581: every found item is marked, before the quiet hours are looked at.\<close>

definition markNotified :: "matchResult list \<Rightarrow> state \<Rightarrow> state" where
  "markNotified newlyFound s =
     s\<lparr>notifiedItemsThisOverallStockCycle :=
          notifiedItemsThisOverallStockCycle s \<union> set (map resultToken newlyFound)\<rparr>"

text \<open>
  \<^verbatim>\<open>checkStockAndNotify\<close> of \<^verbatim>\<open>FetchData.js\<close>. It has no handler of its own around the
  fetch: an exception there leaves it (\<open>Inl\<close>), with the state as it is. A rejected
  send is caught inside.
\<close>

definition checkStockAndNotify_FetchData ::
  "config_FetchData \<Rightarrow> state \<Rightarrow> currentTime \<Rightarrow> stock option outcome \<Rightarrow> unit outcome
     \<Rightarrow> state \<times> (unit + report)" where
  "checkStockAndNotify_FetchData cfg s currentTimeDetails fetched created =
     (case fetched of
        Threw \<Rightarrow> (s, Inl ())
      | Returned None \<Rightarrow> (s, Inr NoData)
      | Returned (Some stockData) \<Rightarrow>
          (let s1 = detectChange (currentOverallStockSignature_FetchData stockData) s;
               newlyFound = newlyFoundKeywordItems (keywordsToMonitor cfg) stockData
                              (notifiedItemsThisOverallStockCycle s1)
           in if length newlyFound > 0
              then (let body = messageBody_FetchData cfg currentTimeDetails newlyFound;
                        s2 = markNotified newlyFound s1
                    in if isQuietHours_FetchData (quietHoursStart cfg) (quietHoursEnd cfg)
                            (hour currentTimeDetails)
                       then (s2, Inr (QuietSuppressed newlyFound body))
                       else if twilioClient cfg
                       then (case created of
                               Returned u \<Rightarrow> (s2, Inr (AlertSent newlyFound body))
                             | Threw \<Rightarrow> (s2, Inr (AlertFailed newlyFound body)))
                       else (s2, Inr (AlertFailed newlyFound body)))
              else (s1, Inr NothingNew)))"

text \<open>
  \<^verbatim>\<open>mainScheduler\<close>, run every second: at a target instant it takes the lock, runs the
  check, catches whatever it throws, and releases the lock in \<^verbatim>\<open>finally\<close>. \<open>None\<close> means
  the instant is not a target and nothing was done.
\<close>

definition mainScheduler ::
  "config_FetchData \<Rightarrow> state \<Rightarrow> currentTime \<Rightarrow> stock option outcome \<Rightarrow> unit outcome
     \<Rightarrow> state \<times> report option" where
  "mainScheduler cfg s now fetched created =
     (if minute now \<in> set (TARGET_MINUTES cfg) \<and> second now = TARGET_SECONDS cfg
      then (if isCheckRunning s then (s, Some Skipped)
            else (case checkStockAndNotify_FetchData cfg (s\<lparr>isCheckRunning := True\<rparr>)
                         now fetched created of
                    (s1, Inl e) \<Rightarrow> (finallyBlock s1, Some (FatalError []))
                  | (s1, Inr r) \<Rightarrow> (finallyBlock s1, Some r)))
      else (s, None))"

text \<open>A sequence of scheduler ticks, each run to its end before the next starts.\<close>

type_synonym answers_FetchData = "currentTime \<times> stock option outcome \<times> unit outcome"

fun foundAt :: "report option \<Rightarrow> string list" where
  "foundAt None = []"
| "foundAt (Some r) = batchTokens r"

fun ticks ::
  "config_FetchData \<Rightarrow> state \<Rightarrow> answers_FetchData list \<Rightarrow> (state \<times> report option) list" where
  "ticks cfg s [] = []"
| "ticks cfg s ((now, fetched, created) # rest) =
     (let (s', r) = mainScheduler cfg s now fetched created
      in (s', r) # ticks cfg s' rest)"

section \<open>The scraper\<close>

text \<open>
  \<^verbatim>\<open>fetchStockData\<close> of \<^verbatim>\<open>scraper.js\<close>. The request and the HTML parser are outside the
  program: what they give is a parameter. A \<open>document\<close> tells, for each of the five
  headings, whether an \<^verbatim>\<open>h2\<close> containing it was found, and then the texts (before
  \<^verbatim>\<open>trim\<close>) of the first \<^verbatim>\<open>span\<close> of every \<^verbatim>\<open>li\<close> of the first \<^verbatim>\<open>ul\<close> beside it.
  \<open>Threw\<close> stands for any exception inside the \<^verbatim>\<open>try\<close> block: a proxy URL that does not
  parse, a request that fails or times out, a parser error.
\<close>

datatype heading = SEEDS_STOCK | EGG_STOCK | GEAR_STOCK | HONEY_STOCK | COSMETICS_STOCK

type_synonym document = "heading \<Rightarrow> string list option"

text \<open>\<^verbatim>\<open>stockCategories\<close>: the array each heading's items are pushed to.\<close>

fun stockCategories :: "heading \<Rightarrow> catKey" where
  "stockCategories SEEDS_STOCK = SeedsStock"
| "stockCategories EGG_STOCK = EggStock"
| "stockCategories GEAR_STOCK = GearStock"
| "stockCategories HONEY_STOCK = GearStock"
| "stockCategories COSMETICS_STOCK = GearStock"

definition isWhiteSpace :: "char \<Rightarrow> bool" where
  "isWhiteSpace c = (c \<in> set [CHR '' '', CHR 0x09, CHR 0x0A, CHR 0x0B, CHR 0x0C, CHR 0x0D])"

definition trim :: "string \<Rightarrow> string" where
  "trim s = rev (dropWhile isWhiteSpace (rev (dropWhile isWhiteSpace s)))"

text \<open>The three arrays under construction, and \<^verbatim>\<open>targetList.push\<close>.\<close>

type_synonym lists = "catKey \<Rightarrow> item list"

fun pushItems :: "catKey \<Rightarrow> string list \<Rightarrow> lists \<Rightarrow> lists" where
  "pushItems targetList [] stock = stock"
| "pushItems targetList (text # lis) stock =
     pushItems targetList lis
       (if trim text \<noteq> [] then stock(targetList := stock targetList @ [Named (trim text)])
        else stock)"

fun scrapeHeadings :: "document \<Rightarrow> heading list \<Rightarrow> lists \<Rightarrow> lists" where
  "scrapeHeadings doc [] stock = stock"
| "scrapeHeadings doc (categoryName # rest) stock =
     scrapeHeadings doc rest
       (case doc categoryName of
          None \<Rightarrow> stock
        | Some lis \<Rightarrow> pushItems (stockCategories categoryName) lis stock)"

definition fetchStockData :: "document outcome \<Rightarrow> stock option" where
  "fetchStockData response =
     (case response of
        Threw \<Rightarrow> None
      | Returned doc \<Rightarrow>
          (let stock = scrapeHeadings doc
                         [SEEDS_STOCK, EGG_STOCK, GEAR_STOCK, HONEY_STOCK, COSMETICS_STOCK]
                         (\<lambda>catKey. [])
           in Some \<lparr>seedsStock = Some (stock SeedsStock), eggStock = Some (stock EggStock),
                    gearStock = Some (stock GearStock)\<rparr>))"

section \<open>What a signature stands for\<close>

text \<open>
  The (name, category label) pairs of the items a signature counts: in \<^verbatim>\<open>app.js\<close> the
  items with a non-empty name, in \<^verbatim>\<open>FetchData.js\<close> the items whose name is a string.
\<close>

fun itemNames :: "item list \<Rightarrow> string list" where
  "itemNames [] = []"
| "itemNames (Malformed # items) = itemNames items"
| "itemNames (Named itemName # items) =
     (if itemName \<noteq> [] then itemName # itemNames items else itemNames items)"

fun itemNames_FetchData :: "item list \<Rightarrow> string list" where
  "itemNames_FetchData [] = []"
| "itemNames_FetchData (Malformed # items) = itemNames_FetchData items"
| "itemNames_FetchData (Named itemName # items) = itemName # itemNames_FetchData items"

definition pairList :: "stock \<Rightarrow> (string \<times> string) list" where
  "pairList stock =
     concat (map (\<lambda>catKey. case property stock catKey of
                                 None \<Rightarrow> []
                               | Some items \<Rightarrow>
                                   map (\<lambda>n. (n, categoryMap catKey)) (itemNames items))
                 categories)"

definition pairList_FetchData :: "stock \<Rightarrow> (string \<times> string) list" where
  "pairList_FetchData stock =
     concat (map (\<lambda>catKey. case property stock catKey of
                                 None \<Rightarrow> []
                               | Some items \<Rightarrow>
                                   map (\<lambda>n. (n, categoryMap_FetchData catKey))
                                     (itemNames_FetchData items))
                 categories)"

definition stockPairs :: "stock \<Rightarrow> (string \<times> string) multiset" where
  "stockPairs stock = mset (pairList stock)"

definition stockPairs_FetchData :: "stock \<Rightarrow> (string \<times> string) multiset" where
  "stockPairs_FetchData stock = mset (pairList_FetchData stock)"

text \<open>No counted item name contains the separator of the signature.\<close>

definition commaFree :: "stock \<Rightarrow> bool" where
  "commaFree stock = list_all (\<lambda>p. CHR '','' \<notin> set (fst p)) (pairList stock)"

definition commaFree_FetchData :: "stock \<Rightarrow> bool" where
  "commaFree_FetchData stock = list_all (\<lambda>p. CHR '','' \<notin> set (fst p)) (pairList_FetchData stock)"

text \<open>The signature as a function of the counted pairs alone.\<close>

definition tokenOf :: "string \<times> string \<Rightarrow> string" where
  "tokenOf p = token (fst p) (snd p)"

definition signatureOf :: "(string \<times> string) list \<Rightarrow> string" where
  "signatureOf ps = join (sort (map tokenOf ps))"

definition goodLabel :: "string \<Rightarrow> bool" where
  "goodLabel c = (CHR ''|'' \<notin> set c \<and> CHR '','' \<notin> set c)"

section \<open>What a match stands for\<close>

text \<open>The item name contains the keyword as a substring, letter case aside.\<close>

definition containsKeyword :: "string \<Rightarrow> string \<Rightarrow> bool" where
  "containsKeyword itemName kw = sublist (toLowerCase kw) (toLowerCase itemName)"

text \<open>The elements of a category property: none when it holds no array.\<close>

definition arrayOf :: "item list option \<Rightarrow> item list" where
  "arrayOf items = (case items of None \<Rightarrow> [] | Some its \<Rightarrow> its)"

section \<open>What a page section stands for\<close>

text \<open>The items of one section of the page: its texts, trimmed, the empty ones left out.\<close>

definition sectionItems :: "document \<Rightarrow> heading \<Rightarrow> item list" where
  "sectionItems doc categoryName =
     (case doc categoryName of
        None \<Rightarrow> []
      | Some lis \<Rightarrow> map Named (filter (\<lambda>itemName. itemName \<noteq> []) (map trim lis)))"

section \<open>Strings: lemmas\<close>

lemma split_at_sep:
  "c \<notin> set x \<Longrightarrow> c \<notin> set y \<Longrightarrow> x @ c # r = y @ c # r' \<Longrightarrow> x = y \<and> r = r'"
proof (induction x arbitrary: y)
  case Nil
  then show ?case by (cases y) auto
next
  case (Cons a x)
  then show ?case by (cases y) auto
qed

lemma length_join: "length (join xs) = sum_list (map length xs) + (length xs - 1)"
  by (induction xs rule: join.induct) auto

lemma join_Nil_iff: "\<forall>x\<in>set xs. x \<noteq> [] \<Longrightarrow> join xs = [] \<longleftrightarrow> xs = []"
  by (induction xs rule: join.induct) auto

lemma comma_in_join: "CHR '','' \<in> set (join (x # y # ys))"
  by simp

text \<open>Joining is one-to-one on lists of non-empty strings without a comma.\<close>

lemma join_inj:
  assumes "\<forall>x\<in>set xs. x \<noteq> [] \<and> CHR '','' \<notin> set x"
    and "\<forall>y\<in>set ys. y \<noteq> [] \<and> CHR '','' \<notin> set y"
    and "join xs = join ys"
  shows "xs = ys"
  using assms
proof (induction xs arbitrary: ys rule: join.induct)
  case 1
  then show ?case using join_Nil_iff[of ys] by auto
next
  case (2 x)
  show ?case
  proof (cases ys rule: join.cases)
    case 1
    with 2 show ?thesis by simp
  next
    case (2 y)
    with "2.prems" show ?thesis by simp
  next
    case (3 y y' ys')
    with "2.prems" have "CHR '','' \<in> set x"
      using comma_in_join[of y y' ys'] by simp
    with "2.prems" show ?thesis by simp
  qed
next
  case (3 x x' xs)
  show ?case
  proof (cases ys rule: join.cases)
    case 1
    with "3.prems" show ?thesis by simp
  next
    case (2 y)
    with "3.prems" have "CHR '','' \<in> set y"
      using comma_in_join[of x x' xs] by simp
    with "3.prems" 2 show ?thesis by simp
  next
    case ys: (3 y y' ys')
    from "3.prems" ys have eq: "x @ CHR '','' # join (x' # xs) = y @ CHR '','' # join (y' # ys')"
      by simp
    have "x = y \<and> join (x' # xs) = join (y' # ys')"
      using split_at_sep[OF _ _ eq] "3.prems" ys by simp
    moreover have "x' # xs = y' # ys'"
      using "3.IH"[of "y' # ys'"] "3.prems" ys calculation by simp
    ultimately show ?thesis using ys by simp
  qed
qed

lemma token_inj:
  assumes "CHR ''|'' \<notin> set c" "CHR ''|'' \<notin> set c'" "token n c = token n' c'"
  shows "n = n' \<and> c = c'"
proof -
  have "rev c @ CHR ''|'' # rev n = rev c' @ CHR ''|'' # rev n'"
    using arg_cong[OF assms(3), of rev] by (simp add: token_def)
  from split_at_sep[OF _ _ this] assms show ?thesis by simp
qed

lemma sort_eq_iff_mset: "sort xs = sort ys \<longleftrightarrow> mset xs = mset ys"
  by (metis mset_sort properties_for_sort sorted_sort)

section \<open>Signatures: lemmas\<close>

lemma length_signatureOf:
  "length (signatureOf ps) =
     sum_mset (image_mset (length \<circ> tokenOf) (mset ps)) + (size (mset ps) - 1)"
proof -
  have "sum_list (map length (sort (map tokenOf ps))) =
          sum_mset (image_mset length (mset (sort (map tokenOf ps))))"
    by (metis mset_map sum_mset_sum_list)
  then show ?thesis
    by (simp add: signatureOf_def length_join multiset.map_comp)
qed

lemma signatureOf_cong: "mset ps = mset qs \<Longrightarrow> signatureOf ps = signatureOf qs"
  unfolding signatureOf_def
  by (metis mset_map sort_eq_iff_mset)

lemma tokenOf_nonempty: "tokenOf p \<noteq> []"
  by (simp add: tokenOf_def token_def)

lemma signatureOf_add:
  assumes "mset qs = add_mset p (mset ps)"
  shows "length (signatureOf ps) < length (signatureOf qs)"
  using tokenOf_nonempty[of p]
  by (cases "tokenOf p") (simp_all add: length_signatureOf assms)

lemma signatureOf_inj:
  assumes sig: "signatureOf ps = signatureOf qs"
    and ps: "\<forall>p\<in>set ps. goodLabel (snd p) \<and> CHR '','' \<notin> set (fst p)"
    and qs: "\<forall>p\<in>set qs. goodLabel (snd p) \<and> CHR '','' \<notin> set (fst p)"
  shows "mset ps = mset qs"
proof -
  have tok: "t \<noteq> [] \<and> CHR '','' \<notin> set t" if "t \<in> tokenOf ` (set ps \<union> set qs)" for t
    using that ps qs by (auto simp: tokenOf_def token_def goodLabel_def)
  have "sort (map tokenOf ps) = sort (map tokenOf qs)"
  proof (rule join_inj)
    show "\<forall>x\<in>set (sort (map tokenOf ps)). x \<noteq> [] \<and> CHR '','' \<notin> set x"
      using tok by auto
    show "\<forall>y\<in>set (sort (map tokenOf qs)). y \<noteq> [] \<and> CHR '','' \<notin> set y"
      using tok by auto
    show "join (sort (map tokenOf ps)) = join (sort (map tokenOf qs))"
      using sig by (simp add: signatureOf_def)
  qed
  then have "image_mset tokenOf (mset ps) = image_mset tokenOf (mset qs)"
    by (simp add: sort_eq_iff_mset)
  moreover have "z = z'" if "z \<in># mset ps" "z' \<in># mset qs" "tokenOf z = tokenOf z'" for z z'
    using that ps qs token_inj[of "snd z" "snd z'" "fst z" "fst z'"]
    by (auto simp: tokenOf_def goodLabel_def prod_eq_iff)
  ultimately show ?thesis
    by (rule multiset.inj_map_strong[rotated])
qed

lemma itemTokens_names: "itemTokens label items = map (\<lambda>n. token n label) (itemNames items)"
  by (induction label items rule: itemTokens.induct) auto

lemma allCurrentStockItems_pairList:
  "allCurrentStockItems stock = map tokenOf (pairList stock)"
  by (simp add: allCurrentStockItems_def pairList_def categories_def tokenOf_def
      itemTokens_names comp_def split: option.splits)

lemma signature_pairList: "currentOverallStockSignature stock = signatureOf (pairList stock)"
  by (simp add: currentOverallStockSignature_def signatureOf_def allCurrentStockItems_pairList)

lemma pairList_labels: "p \<in> set (pairList stock) \<Longrightarrow> goodLabel (snd p)"
  by (auto simp: pairList_def categories_def goodLabel_def split: option.splits)

lemma itemTokens_FetchData_names:
  "itemTokens_FetchData label items = map (\<lambda>n. token n label) (itemNames_FetchData items)"
  by (induction label items rule: itemTokens_FetchData.induct) auto

lemma allCurrentStockItemsForSignature_pairList:
  "allCurrentStockItemsForSignature stock = map tokenOf (pairList_FetchData stock)"
  by (simp add: allCurrentStockItemsForSignature_def pairList_FetchData_def categories_def
      tokenOf_def itemTokens_FetchData_names comp_def split: option.splits)

lemma signature_FetchData_pairList:
  "currentOverallStockSignature_FetchData stock = signatureOf (pairList_FetchData stock)"
  by (simp add: currentOverallStockSignature_FetchData_def signatureOf_def
      allCurrentStockItemsForSignature_pairList)

lemma pairList_FetchData_labels: "p \<in> set (pairList_FetchData stock) \<Longrightarrow> goodLabel (snd p)"
  by (auto simp: pairList_FetchData_def categories_def goodLabel_def split: option.splits)

section \<open>Signatures: results\<close>

text \<open>
  C2, as the claim states it, fails: the signature joins the tokens with a comma and
  escapes nothing, so one item named \<^verbatim>\<open>x|Seeds,y\<close> and the two items \<^verbatim>\<open>x\<close> and \<^verbatim>\<open>y\<close>
  have the same signature in \<^verbatim>\<open>app.js\<close>.
\<close>

theorem signature_collision:
  "currentOverallStockSignature
     \<lparr>seedsStock = Some [Named ''x|Seeds,y''], eggStock = Some [], gearStock = Some []\<rparr>
   = currentOverallStockSignature
     \<lparr>seedsStock = Some [Named ''x'', Named ''y''], eggStock = Some [], gearStock = Some []\<rparr>
   \<and> stockPairs
     \<lparr>seedsStock = Some [Named ''x|Seeds,y''], eggStock = Some [], gearStock = Some []\<rparr>
   \<noteq> stockPairs
     \<lparr>seedsStock = Some [Named ''x'', Named ''y''], eggStock = Some [], gearStock = Some []\<rparr>"
  by (simp add: currentOverallStockSignature_def allCurrentStockItems_def categories_def
      token_def stockPairs_def pairList_def)

text \<open>
  C2, amended. In \<^verbatim>\<open>app.js\<close>, two snapshots with the same multiset of (name, category)
  pairs have the same signature, whatever the order of their items; when no item name
  contains a comma, the signatures are equal exactly when the multisets are; and a
  snapshot with one more item never has the signature of the snapshot without it.
\<close>

theorem signature_pairs:
  "(stockPairs a = stockPairs b \<longrightarrow>
      currentOverallStockSignature a = currentOverallStockSignature b)
   \<and> (commaFree a \<and> commaFree b \<longrightarrow>
        (currentOverallStockSignature a = currentOverallStockSignature b
           \<longleftrightarrow> stockPairs a = stockPairs b))
   \<and> (stockPairs b = add_mset p (stockPairs a) \<longrightarrow>
        currentOverallStockSignature a \<noteq> currentOverallStockSignature b)"
proof (intro conjI impI)
  assume "stockPairs a = stockPairs b"
  then show "currentOverallStockSignature a = currentOverallStockSignature b"
    unfolding signature_pairList stockPairs_def by (rule signatureOf_cong)
next
  assume cf: "commaFree a \<and> commaFree b"
  show "currentOverallStockSignature a = currentOverallStockSignature b
          \<longleftrightarrow> stockPairs a = stockPairs b"
  proof
    assume "currentOverallStockSignature a = currentOverallStockSignature b"
    then have "signatureOf (pairList a) = signatureOf (pairList b)"
      by (simp add: signature_pairList)
    then have "mset (pairList a) = mset (pairList b)"
    proof (rule signatureOf_inj)
      show "\<forall>p\<in>set (pairList a). goodLabel (snd p) \<and> CHR '','' \<notin> set (fst p)"
        using cf by (auto simp: commaFree_def list_all_iff pairList_labels)
      show "\<forall>p\<in>set (pairList b). goodLabel (snd p) \<and> CHR '','' \<notin> set (fst p)"
        using cf by (auto simp: commaFree_def list_all_iff pairList_labels)
    qed
    then show "stockPairs a = stockPairs b"
      by (simp add: stockPairs_def)
  next
    assume "stockPairs a = stockPairs b"
    then show "currentOverallStockSignature a = currentOverallStockSignature b"
      unfolding signature_pairList stockPairs_def by (rule signatureOf_cong)
  qed
next
  assume "stockPairs b = add_mset p (stockPairs a)"
  then have "length (signatureOf (pairList a)) < length (signatureOf (pairList b))"
    unfolding stockPairs_def by (rule signatureOf_add)
  then show "currentOverallStockSignature a \<noteq> currentOverallStockSignature b"
    by (auto simp: signature_pairList)
qed

theorem signature_pairs_witness:
  "stockPairs \<lparr>seedsStock = Some [Named ''Mango'', Named ''Carrot''], eggStock = Some [Named ''Bug Egg''], gearStock = None\<rparr>
     = stockPairs \<lparr>seedsStock = Some [Named ''Carrot'', Named ''Mango''], eggStock = Some [Named ''Bug Egg''], gearStock = Some []\<rparr>
   \<and> commaFree \<lparr>seedsStock = Some [Named ''Mango'', Named ''Carrot''], eggStock = Some [Named ''Bug Egg''], gearStock = None\<rparr>
   \<and> commaFree \<lparr>seedsStock = Some [Named ''Carrot'', Named ''Mango''], eggStock = Some [Named ''Bug Egg''], gearStock = Some []\<rparr>
   \<and> currentOverallStockSignature \<lparr>seedsStock = Some [Named ''Mango'', Named ''Carrot''], eggStock = Some [Named ''Bug Egg''], gearStock = None\<rparr>
     = currentOverallStockSignature \<lparr>seedsStock = Some [Named ''Carrot'', Named ''Mango''], eggStock = Some [Named ''Bug Egg''], gearStock = Some []\<rparr>
   \<and> stockPairs \<lparr>seedsStock = Some [Named ''Mango'', Named ''Carrot''], eggStock = Some [Named ''Bug Egg''], gearStock = None\<rparr>
     = add_mset (''Mango'', ''Seeds'') (stockPairs \<lparr>seedsStock = Some [Named ''Carrot''], eggStock = Some [Named ''Bug Egg''], gearStock = None\<rparr>)
   \<and> currentOverallStockSignature \<lparr>seedsStock = Some [Named ''Carrot''], eggStock = Some [Named ''Bug Egg''], gearStock = None\<rparr>
     \<noteq> currentOverallStockSignature \<lparr>seedsStock = Some [Named ''Mango'', Named ''Carrot''], eggStock = Some [Named ''Bug Egg''], gearStock = None\<rparr>"
proof -
  let ?a = "\<lparr>seedsStock = Some [Named ''Mango'', Named ''Carrot''], eggStock = Some [Named ''Bug Egg''], gearStock = None\<rparr>"
  let ?b = "\<lparr>seedsStock = Some [Named ''Carrot'', Named ''Mango''], eggStock = Some [Named ''Bug Egg''], gearStock = Some []\<rparr>"
  let ?c = "\<lparr>seedsStock = Some [Named ''Carrot''], eggStock = Some [Named ''Bug Egg''], gearStock = None\<rparr>"
  have pairs: "stockPairs ?a = stockPairs ?b"
    by (simp add: stockPairs_def pairList_def categories_def)
  have cf: "commaFree ?a \<and> commaFree ?b"
    by (simp add: commaFree_def pairList_def categories_def)
  have add: "stockPairs ?a = add_mset (''Mango'', ''Seeds'') (stockPairs ?c)"
    by (simp add: stockPairs_def pairList_def categories_def)
  show ?thesis
    using signature_pairs [of ?a ?b] signature_pairs [of ?c ?a "(''Mango'', ''Seeds'')"] pairs cf add
    by simp
qed

text \<open>The same holds of the signature of \<^verbatim>\<open>FetchData.js\<close>.\<close>

lemma signature_pairs_FetchData:
  "(stockPairs_FetchData a = stockPairs_FetchData b \<longrightarrow>
      currentOverallStockSignature_FetchData a = currentOverallStockSignature_FetchData b)
   \<and> (commaFree_FetchData a \<and> commaFree_FetchData b \<longrightarrow>
        (currentOverallStockSignature_FetchData a = currentOverallStockSignature_FetchData b
           \<longleftrightarrow> stockPairs_FetchData a = stockPairs_FetchData b))
   \<and> (stockPairs_FetchData b = add_mset p (stockPairs_FetchData a) \<longrightarrow>
        currentOverallStockSignature_FetchData a \<noteq> currentOverallStockSignature_FetchData b)"
proof (intro conjI impI)
  assume "stockPairs_FetchData a = stockPairs_FetchData b"
  then show "currentOverallStockSignature_FetchData a = currentOverallStockSignature_FetchData b"
    unfolding signature_FetchData_pairList stockPairs_FetchData_def by (rule signatureOf_cong)
next
  assume cf: "commaFree_FetchData a \<and> commaFree_FetchData b"
  show "currentOverallStockSignature_FetchData a = currentOverallStockSignature_FetchData b
          \<longleftrightarrow> stockPairs_FetchData a = stockPairs_FetchData b"
  proof
    assume "currentOverallStockSignature_FetchData a = currentOverallStockSignature_FetchData b"
    then have "signatureOf (pairList_FetchData a) = signatureOf (pairList_FetchData b)"
      by (simp add: signature_FetchData_pairList)
    then have "mset (pairList_FetchData a) = mset (pairList_FetchData b)"
    proof (rule signatureOf_inj)
      show "\<forall>p\<in>set (pairList_FetchData a). goodLabel (snd p) \<and> CHR '','' \<notin> set (fst p)"
        using cf by (auto simp: commaFree_FetchData_def list_all_iff pairList_FetchData_labels)
      show "\<forall>p\<in>set (pairList_FetchData b). goodLabel (snd p) \<and> CHR '','' \<notin> set (fst p)"
        using cf by (auto simp: commaFree_FetchData_def list_all_iff pairList_FetchData_labels)
    qed
    then show "stockPairs_FetchData a = stockPairs_FetchData b"
      by (simp add: stockPairs_FetchData_def)
  next
    assume "stockPairs_FetchData a = stockPairs_FetchData b"
    then show "currentOverallStockSignature_FetchData a = currentOverallStockSignature_FetchData b"
      unfolding signature_FetchData_pairList stockPairs_FetchData_def by (rule signatureOf_cong)
  qed
next
  assume "stockPairs_FetchData b = add_mset p (stockPairs_FetchData a)"
  then have "length (signatureOf (pairList_FetchData a))
               < length (signatureOf (pairList_FetchData b))"
    unfolding stockPairs_FetchData_def by (rule signatureOf_add)
  then show "currentOverallStockSignature_FetchData a \<noteq> currentOverallStockSignature_FetchData b"
    by (auto simp: signature_FetchData_pairList)
qed

lemma signature_collision_FetchData:
  "currentOverallStockSignature_FetchData
     \<lparr>seedsStock = Some [Named ''x|Seed,y''], eggStock = None, gearStock = None\<rparr>
   = currentOverallStockSignature_FetchData
     \<lparr>seedsStock = Some [Named ''x'', Named ''y''], eggStock = None, gearStock = None\<rparr>
   \<and> stockPairs_FetchData
     \<lparr>seedsStock = Some [Named ''x|Seed,y''], eggStock = None, gearStock = None\<rparr>
   \<noteq> stockPairs_FetchData
     \<lparr>seedsStock = Some [Named ''x'', Named ''y''], eggStock = None, gearStock = None\<rparr>"
  by (simp add: currentOverallStockSignature_FetchData_def allCurrentStockItemsForSignature_def
      categories_def token_def stockPairs_FetchData_def pairList_FetchData_def)

section \<open>The keyword matcher: lemmas\<close>

lemma str_includes_sublist: "str_includes s t \<longleftrightarrow> sublist t s"
  by (induction s) (auto simp: sublist_Cons_right)



lemma scanKeywords_find:
  "scanKeywords n cat N kws =
     (case find (containsKeyword n) kws of
        None \<Rightarrow> []
      | Some kw \<Rightarrow> if token n cat \<in> N then []
                  else [\<lparr>name = n, category = cat, matchedKeyword = kw\<rparr>])"
  by (induction kws) (auto simp: containsKeyword_def str_includes_sublist)

lemma map_name_scanKeywords:
  "map name (scanKeywords n cat N kws) =
     (if (\<exists>kw\<in>set kws. containsKeyword n kw) \<and> token n cat \<notin> N then [n] else [])"
  by (auto simp: scanKeywords_find find_None_iff split: option.splits)

lemma map_name_findInItems:
  "map name (findInItems items cat kws N) =
     filter (\<lambda>n. (\<exists>kw\<in>set kws. containsKeyword n kw) \<and> token n cat \<notin> N)
       (itemNames_FetchData items)"
  by (induction items cat kws N rule: findInItems.induct) (simp_all add: map_name_scanKeywords)

lemma scanKeywords_first:
  assumes "r \<in> set (scanKeywords n cat N kws)"
  shows "name r = n \<and> category r = cat \<and> token n cat \<notin> N \<and>
         (\<exists>i<length kws. matchedKeyword r = kws ! i \<and> containsKeyword n (kws ! i)
             \<and> (\<forall>j<i. \<not> containsKeyword n (kws ! j)))"
  using assms
  by (auto simp: scanKeywords_find find_Some_iff find_Some_iff2 split: option.splits if_splits)

lemma findInItems_first:
  assumes "r \<in> set (findInItems items cat kws N)"
  shows "category r = cat \<and> resultToken r \<notin> N \<and>
         (\<exists>i<length kws. matchedKeyword r = kws ! i \<and> containsKeyword (name r) (kws ! i)
             \<and> (\<forall>j<i. \<not> containsKeyword (name r) (kws ! j)))"
  using assms
proof (induction items cat kws N rule: findInItems.induct)
  case (3 itemName items categoryName currentKeywords notifiedItemsSet)
  then show ?case
    using scanKeywords_first[of r itemName categoryName notifiedItemsSet currentKeywords]
    by (auto simp: resultToken_def)
qed simp_all

section \<open>The keyword matcher: results\<close>

text \<open>
  C4. \<^verbatim>\<open>findNewKeywordItemsInCategory\<close> of \<^verbatim>\<open>FetchData.js\<close> returns, in the order of the
  items, one result for each item whose name contains some keyword, letter case aside,
  and whose token is not in the set it was given, and no other result; and the keyword
  recorded in a result is the first keyword of the list that the name contains.
\<close>

theorem findNewKeywordItemsInCategory_matches:
  "map name (findNewKeywordItemsInCategory items categoryName currentKeywords notifiedItemsSet)
     = filter (\<lambda>n. (\<exists>kw\<in>set currentKeywords. containsKeyword n kw)
                     \<and> token n categoryName \<notin> notifiedItemsSet)
         (itemNames_FetchData (arrayOf items))
   \<and> (\<forall>r\<in>set (findNewKeywordItemsInCategory items categoryName currentKeywords notifiedItemsSet).
         category r = categoryName
         \<and> (\<exists>i<length currentKeywords.
               matchedKeyword r = currentKeywords ! i \<and> containsKeyword (name r) (currentKeywords ! i)
               \<and> (\<forall>j<i. \<not> containsKeyword (name r) (currentKeywords ! j))))"
proof (cases items)
  case None
  then show ?thesis
    by (simp add: findNewKeywordItemsInCategory_def arrayOf_def)
next
  case (Some its)
  then show ?thesis
    using findInItems_first[of _ its categoryName currentKeywords notifiedItemsSet]
    by (auto simp: findNewKeywordItemsInCategory_def arrayOf_def map_name_findInItems)
qed

lemma containsKeyword_code:
  "containsKeyword n kw = str_includes (toLowerCase n) (toLowerCase kw)"
  by (simp add: containsKeyword_def str_includes_sublist)

theorem findNewKeywordItemsInCategory_matches_witness:
  "map name
     (findNewKeywordItemsInCategory
        (Some [Named ''Bug Egg'', Malformed, Named ''EGGPLANT'', Named ''Carrot'', Named ''Mango''])
        ''Seed'' [''Mango'', ''egg'', ''Bug Egg''] {''Mango|Seed''})
   = [''Bug Egg'', ''EGGPLANT'']
   \<and> findNewKeywordItemsInCategory
        (Some [Named ''Bug Egg'', Malformed, Named ''EGGPLANT'', Named ''Carrot'', Named ''Mango''])
        ''Seed'' [''Mango'', ''egg'', ''Bug Egg''] {''Mango|Seed''}
     = [\<lparr>name = ''Bug Egg'', category = ''Seed'', matchedKeyword = ''egg''\<rparr>,
        \<lparr>name = ''EGGPLANT'', category = ''Seed'', matchedKeyword = ''egg''\<rparr>]"
proof -
  have "map name
     (findNewKeywordItemsInCategory
        (Some [Named ''Bug Egg'', Malformed, Named ''EGGPLANT'', Named ''Carrot'', Named ''Mango''])
        ''Seed'' [''Mango'', ''egg'', ''Bug Egg''] {''Mango|Seed''})
   = [''Bug Egg'', ''EGGPLANT'']"
    using findNewKeywordItemsInCategory_matches
      [of "Some [Named ''Bug Egg'', Malformed, Named ''EGGPLANT'', Named ''Carrot'', Named ''Mango'']"
        "''Seed''" "[''Mango'', ''egg'', ''Bug Egg'']" "{''Mango|Seed''}"]
    by (simp add: arrayOf_def containsKeyword_code toLowerCase_def toLowerCaseChar_def token_def)
  moreover have "findNewKeywordItemsInCategory
        (Some [Named ''Bug Egg'', Malformed, Named ''EGGPLANT'', Named ''Carrot'', Named ''Mango''])
        ''Seed'' [''Mango'', ''egg'', ''Bug Egg''] {''Mango|Seed''}
     = [\<lparr>name = ''Bug Egg'', category = ''Seed'', matchedKeyword = ''egg''\<rparr>,
        \<lparr>name = ''EGGPLANT'', category = ''Seed'', matchedKeyword = ''egg''\<rparr>]"
    by (simp add: findNewKeywordItemsInCategory_def toLowerCase_def toLowerCaseChar_def token_def)
  ultimately show ?thesis by simp
qed

text \<open>
  The scan written out in \<^verbatim>\<open>app.js\<close> marks a found item at once, so of two items with
  the same name in one category it finds the first only; \<^verbatim>\<open>FetchData.js\<close> finds both.
\<close>

lemma same_name_twice:
  "snd (scanItems [''Mango''] ''Seeds'' [Named ''Mango'', Named ''Mango''] ({}, []))
     = [\<lparr>name = ''Mango'', category = ''Seeds'', matchedKeyword = ''Mango''\<rparr>]
   \<and> findNewKeywordItemsInCategory (Some [Named ''Mango'', Named ''Mango'']) ''Seed''
       [''Mango''] {}
     = [\<lparr>name = ''Mango'', category = ''Seed'', matchedKeyword = ''Mango''\<rparr>,
        \<lparr>name = ''Mango'', category = ''Seed'', matchedKeyword = ''Mango''\<rparr>]"
  by (simp add: findNewKeywordItemsInCategory_def matchKeyword_def toLowerCase_def
      toLowerCaseChar_def token_def)

text \<open>
  Over a whole snapshot \<^verbatim>\<open>FetchData.js\<close> runs the matcher on the three categories in
  turn, against the same set, and appends what it returns.
\<close>

lemma newlyFoundKeywordItems_names:
  "map name (newlyFoundKeywordItems currentKeywords stockData notifiedItemsSet)
     = concat (map (\<lambda>catKey.
          filter (\<lambda>n. (\<exists>kw\<in>set currentKeywords. containsKeyword n kw)
                      \<and> token n (categoryMap_FetchData catKey) \<notin> notifiedItemsSet)
            (itemNames_FetchData (arrayOf (property stockData catKey))))
        categories)"
proof -
  have one: "map name (findNewKeywordItemsInCategory items categoryName currentKeywords
                         notifiedItemsSet)
     = filter (\<lambda>n. (\<exists>kw\<in>set currentKeywords. containsKeyword n kw)
                     \<and> token n categoryName \<notin> notifiedItemsSet)
         (itemNames_FetchData (arrayOf items))" for items categoryName
    by (cases items)
      (simp_all add: findNewKeywordItemsInCategory_def arrayOf_def map_name_findInItems)
  show ?thesis
    by (simp add: newlyFoundKeywordItems_def map_concat comp_def one)
qed

section \<open>The stock check of \<^verbatim>\<open>app.js\<close>: lemmas\<close>

lemma scanItems_acc:
  "\<exists>G. scanItems kws l items (N, F) = (N \<union> set (map resultToken G), F @ G)
       \<and> distinct (map resultToken G) \<and> set (map resultToken G) \<inter> N = {}"
proof (induction items arbitrary: N F)
  case Nil
  show ?case by (rule exI[of _ "[]"]) simp
next
  case (Cons it items)
  show ?case
  proof (cases it)
    case Malformed
    then show ?thesis using Cons.IH[of N F] by simp
  next
    case (Named n)
    let ?t = "token n l"
    show ?thesis
    proof (cases "n \<noteq> [] \<and> ?t \<notin> N \<and> (\<exists>kw. matchKeyword kws n = Some kw \<and> kw \<noteq> [])")
      case False
      then have "scanItems kws l (it # items) (N, F) = scanItems kws l items (N, F)"
        using Named by (auto split: option.splits)
      then show ?thesis using Cons.IH[of N F] by simp
    next
      case True
      then obtain kw where kw: "matchKeyword kws n = Some kw" "kw \<noteq> []" by blast
      let ?r = "\<lparr>name = n, category = l, matchedKeyword = kw\<rparr>"
      have step: "scanItems kws l (it # items) (N, F) = scanItems kws l items (insert ?t N, F @ [?r])"
        using Named True kw by simp
      from Cons.IH[of "insert ?t N" "F @ [?r]"] obtain G where
        G: "scanItems kws l items (insert ?t N, F @ [?r]) = (insert ?t N \<union> set (map resultToken G), (F @ [?r]) @ G)"
          "distinct (map resultToken G)" "set (map resultToken G) \<inter> insert ?t N = {}"
        by blast
      have rt: "resultToken ?r = ?t" by (simp add: resultToken_def)
      show ?thesis
        apply (rule exI[of _ "?r # G"])
        using step G rt True by auto
    qed
  qed
qed

lemma scanCategories_acc:
  "\<exists>G. scanCategories kws stock cats (N, F) = (N \<union> set (map resultToken G), F @ G)
       \<and> distinct (map resultToken G) \<and> set (map resultToken G) \<inter> N = {}"
proof (induction cats arbitrary: N F)
  case Nil
  show ?case by (rule exI[of _ "[]"]) simp
next
  case (Cons c cats)
  show ?case
  proof (cases "property stock c")
    case None
    then show ?thesis using Cons.IH[of N F] by simp
  next
    case (Some items)
    from scanItems_acc[of kws "categoryMap c" items N F] obtain G1 where
      G1: "scanItems kws (categoryMap c) items (N, F) = (N \<union> set (map resultToken G1), F @ G1)"
        "distinct (map resultToken G1)" "set (map resultToken G1) \<inter> N = {}"
      by blast
    from Cons.IH[of "N \<union> set (map resultToken G1)" "F @ G1"] obtain G2 where
      G2: "scanCategories kws stock cats (N \<union> set (map resultToken G1), F @ G1)
             = ((N \<union> set (map resultToken G1)) \<union> set (map resultToken G2), (F @ G1) @ G2)"
        "distinct (map resultToken G2)"
        "set (map resultToken G2) \<inter> (N \<union> set (map resultToken G1)) = {}"
      by blast
    show ?thesis
      apply (rule exI[of _ "G1 @ G2"])
      using Some G1 G2 by auto
  qed
qed


lemma afterFetch_stock:
  assumes "afterFetch cfg s (Returned (Some stock)) h = (s', p)"
  defines "s1 \<equiv> detectChange (currentOverallStockSignature stock) s"
  shows "\<exists>G. distinct (map resultToken G)
           \<and> set (map resultToken G) \<inter> notifiedItemsThisOverallStockCycle s1 = {}
           \<and> notifiedItemsThisOverallStockCycle s' =
               notifiedItemsThisOverallStockCycle s1 \<union> set (map resultToken G)
           \<and> previousOverallStockSignature s' = previousOverallStockSignature s1
           \<and> (p = Finished NothingNew \<and> G = [] \<and> \<not> isCheckRunning s'
                \<or> p = Finished (QuietSuppressed G (messageBody G)) \<and> G \<noteq> [] \<and> \<not> isCheckRunning s'
                     \<and> isQuietHours (QUIET_HOURS_START cfg) (QUIET_HOURS_END cfg) h
                \<or> p = AwaitSend G (messageBody G) \<and> G \<noteq> [] \<and> isCheckRunning s' = isCheckRunning s
                     \<and> \<not> isQuietHours (QUIET_HOURS_START cfg) (QUIET_HOURS_END cfg) h)"
proof -
  from scanCategories_acc[of "KEYWORDS_TO_MONITOR cfg" stock categories
      "notifiedItemsThisOverallStockCycle s1" "[]"]
  obtain G where G:
    "scanCategories (KEYWORDS_TO_MONITOR cfg) stock categories
       (notifiedItemsThisOverallStockCycle s1, [])
     = (notifiedItemsThisOverallStockCycle s1 \<union> set (map resultToken G), G)"
    "distinct (map resultToken G)"
    "set (map resultToken G) \<inter> notifiedItemsThisOverallStockCycle s1 = {}"
    by auto
  have lock: "isCheckRunning s1 = isCheckRunning s"
    by (simp add: s1_def detectChange_def)
  show ?thesis
    apply (rule exI[of _ G])
    using assms(1) G lock
    by (auto simp: afterFetch_def Let_def finallyBlock_def s1_def[symmetric] split: if_splits)
qed

lemma check_summary:
  assumes "checkStockAndNotify cfg s fetched h sent = (s', r)"
  shows "distinct (batchTokens r)"
    and "set (batchTokens r) \<subseteq> notifiedItemsThisOverallStockCycle s'"
    and "previousOverallStockSignature s' = previousOverallStockSignature s \<Longrightarrow>
           notifiedItemsThisOverallStockCycle s' =
             notifiedItemsThisOverallStockCycle s \<union> set (batchTokens r)
           \<and> set (batchTokens r) \<inter> notifiedItemsThisOverallStockCycle s = {}"
    and "\<not> isCheckRunning s \<Longrightarrow> \<not> isCheckRunning s'"
    and "isCheckRunning s \<Longrightarrow> s' = s \<and> r = Skipped"
proof -
  have all: "distinct (batchTokens r)
     \<and> set (batchTokens r) \<subseteq> notifiedItemsThisOverallStockCycle s'
     \<and> (previousOverallStockSignature s' = previousOverallStockSignature s \<longrightarrow>
           notifiedItemsThisOverallStockCycle s' =
             notifiedItemsThisOverallStockCycle s \<union> set (batchTokens r)
           \<and> set (batchTokens r) \<inter> notifiedItemsThisOverallStockCycle s = {})
     \<and> (\<not> isCheckRunning s \<longrightarrow> \<not> isCheckRunning s')
     \<and> (isCheckRunning s \<longrightarrow> s' = s \<and> r = Skipped)"
  proof (cases "isCheckRunning s")
    case True
    then show ?thesis
      using assms by (auto simp: checkStockAndNotify_def enter_def batchTokens_def)
  next
    case False
    let ?s0 = "s\<lparr>isCheckRunning := True\<rparr>"
    have run: "(case afterFetch cfg ?s0 fetched h of
                  (s1, Finished r) \<Rightarrow> (s1, r)
                | (s1, AwaitSend items body) \<Rightarrow> afterSend s1 items body sent) = (s', r)"
      using assms False by (simp add: checkStockAndNotify_def enter_def)
    show ?thesis
    proof (cases "\<exists>stock. fetched = Returned (Some stock)")
      case False
      then have "fetched = Threw \<or> fetched = Returned None"
        by (cases fetched) auto
      then show ?thesis
        using run \<open>\<not> isCheckRunning s\<close>
        by (auto simp: afterFetch_def finallyBlock_def batchTokens_def)
    next
      case True
      then obtain stock where st: "fetched = Returned (Some stock)" by blast
      obtain s1 p where af: "afterFetch cfg ?s0 (Returned (Some stock)) h = (s1, p)"
        by (cases "afterFetch cfg ?s0 (Returned (Some stock)) h") auto
      from afterFetch_stock[OF af] obtain G where G:
        "distinct (map resultToken G)"
        "set (map resultToken G)
           \<inter> notifiedItemsThisOverallStockCycle (detectChange (currentOverallStockSignature stock) ?s0) = {}"
        "notifiedItemsThisOverallStockCycle s1 =
           notifiedItemsThisOverallStockCycle (detectChange (currentOverallStockSignature stock) ?s0)
             \<union> set (map resultToken G)"
        "previousOverallStockSignature s1 =
           previousOverallStockSignature (detectChange (currentOverallStockSignature stock) ?s0)"
        "p = Finished NothingNew \<and> G = [] \<and> \<not> isCheckRunning s1
           \<or> p = Finished (QuietSuppressed G (messageBody G)) \<and> G \<noteq> [] \<and> \<not> isCheckRunning s1
                \<and> isQuietHours (QUIET_HOURS_START cfg) (QUIET_HOURS_END cfg) h
           \<or> p = AwaitSend G (messageBody G) \<and> G \<noteq> [] \<and> isCheckRunning s1 = isCheckRunning ?s0
                \<and> \<not> isQuietHours (QUIET_HOURS_START cfg) (QUIET_HOURS_END cfg) h"
        by blast
      have fin: "notifiedItemsThisOverallStockCycle s' = notifiedItemsThisOverallStockCycle s1
                 \<and> previousOverallStockSignature s' = previousOverallStockSignature s1
                 \<and> \<not> isCheckRunning s' \<and> batchTokens r = map resultToken G"
        using run st af G(5)
        by (auto simp: afterSend_def finallyBlock_def batchTokens_def split: outcome.splits)
      have same: "previousOverallStockSignature s' = previousOverallStockSignature s \<Longrightarrow>
                  notifiedItemsThisOverallStockCycle (detectChange (currentOverallStockSignature stock) ?s0)
                    = notifiedItemsThisOverallStockCycle s"
        using fin G(4) by (auto simp: detectChange_def split: if_splits)
      show ?thesis
        using fin G(1,2,3) same False by auto
    qed
  qed
  show "distinct (batchTokens r)"
    and "set (batchTokens r) \<subseteq> notifiedItemsThisOverallStockCycle s'"
    and "previousOverallStockSignature s' = previousOverallStockSignature s \<Longrightarrow>
           notifiedItemsThisOverallStockCycle s' =
             notifiedItemsThisOverallStockCycle s \<union> set (batchTokens r)
           \<and> set (batchTokens r) \<inter> notifiedItemsThisOverallStockCycle s = {}"
    and "\<not> isCheckRunning s \<Longrightarrow> \<not> isCheckRunning s'"
    and "isCheckRunning s \<Longrightarrow> s' = s \<and> r = Skipped"
    using all by blast+
qed


lemma epoch_aux:
  assumes "\<forall>(s, r) \<in> set (cycles cfg s1 ws).
             previousOverallStockSignature s = previousOverallStockSignature s1"
  shows "distinct (concat (map (batchTokens \<circ> snd) (cycles cfg s1 ws)))
         \<and> set (concat (map (batchTokens \<circ> snd) (cycles cfg s1 ws)))
             \<inter> notifiedItemsThisOverallStockCycle s1 = {}"
  using assms
proof (induction ws arbitrary: s1)
  case Nil
  then show ?case by simp
next
  case (Cons w ws)
  obtain fetched h sent where w: "w = (fetched, h, sent)"
    by (cases w) auto
  obtain s2 r2 where step: "checkStockAndNotify cfg s1 fetched h sent = (s2, r2)"
    by (cases "checkStockAndNotify cfg s1 fetched h sent") auto
  have unfold: "cycles cfg s1 (w # ws) = (s2, r2) # cycles cfg s2 ws"
    using w step by simp
  have sig2: "previousOverallStockSignature s2 = previousOverallStockSignature s1"
    using Cons.prems unfold by simp
  have rest: "\<forall>(s, r) \<in> set (cycles cfg s2 ws).
                previousOverallStockSignature s = previousOverallStockSignature s2"
    using Cons.prems unfold sig2 by auto
  note ih = Cons.IH[OF rest]
  note cs = check_summary[OF step]
  from cs(3)[OF sig2] have n2:
    "notifiedItemsThisOverallStockCycle s2 =
       notifiedItemsThisOverallStockCycle s1 \<union> set (batchTokens r2)"
    "set (batchTokens r2) \<inter> notifiedItemsThisOverallStockCycle s1 = {}"
    by auto
  show ?case
    unfolding unfold using ih cs(1) n2 by auto
qed

section \<open>The stock check of \<^verbatim>\<open>FetchData.js\<close>: lemmas\<close>

lemma findNew_fresh:
  "r \<in> set (findNewKeywordItemsInCategory items cat kws N) \<Longrightarrow> resultToken r \<notin> N"
  using findInItems_first[of r _ cat kws N]
  by (auto simp: findNewKeywordItemsInCategory_def split: option.splits)

lemma newlyFoundKeywordItems_fresh:
  "r \<in> set (newlyFoundKeywordItems kws stock N) \<Longrightarrow> resultToken r \<notin> N"
  using findNew_fresh by (auto simp: newlyFoundKeywordItems_def)

lemma check_FetchData_summary:
  assumes "checkStockAndNotify_FetchData cfg s now fetched created = (s', e)"
  shows "set (case e of Inl u \<Rightarrow> [] | Inr r \<Rightarrow> batchTokens r) \<subseteq> notifiedItemsThisOverallStockCycle s'"
    and "previousOverallStockSignature s' = previousOverallStockSignature s \<Longrightarrow>
           notifiedItemsThisOverallStockCycle s' =
             notifiedItemsThisOverallStockCycle s \<union> set (case e of Inl u \<Rightarrow> [] | Inr r \<Rightarrow> batchTokens r)
           \<and> set (case e of Inl u \<Rightarrow> [] | Inr r \<Rightarrow> batchTokens r) \<inter> notifiedItemsThisOverallStockCycle s = {}"
    and "isCheckRunning s' = isCheckRunning s"
proof -
  have "set (case e of Inl u \<Rightarrow> [] | Inr r \<Rightarrow> batchTokens r) \<subseteq> notifiedItemsThisOverallStockCycle s'
    \<and> (previousOverallStockSignature s' = previousOverallStockSignature s \<longrightarrow>
           notifiedItemsThisOverallStockCycle s' =
             notifiedItemsThisOverallStockCycle s \<union> set (case e of Inl u \<Rightarrow> [] | Inr r \<Rightarrow> batchTokens r)
           \<and> set (case e of Inl u \<Rightarrow> [] | Inr r \<Rightarrow> batchTokens r) \<inter> notifiedItemsThisOverallStockCycle s = {})
    \<and> isCheckRunning s' = isCheckRunning s"
  proof (cases "\<exists>stock. fetched = Returned (Some stock)")
    case False
    then have "fetched = Threw \<or> fetched = Returned None"
      by (cases fetched) auto
    then show ?thesis
      using assms by (auto simp: checkStockAndNotify_FetchData_def batchTokens_def)
  next
    case True
    then obtain stock where st: "fetched = Returned (Some stock)" by blast
    define s1 where "s1 = detectChange (currentOverallStockSignature_FetchData stock) s"
    define G where "G = newlyFoundKeywordItems (keywordsToMonitor cfg) stock
                          (notifiedItemsThisOverallStockCycle s1)"
    have fresh: "set (map resultToken G) \<inter> notifiedItemsThisOverallStockCycle s1 = {}"
      using newlyFoundKeywordItems_fresh by (auto simp: G_def)
    have s1: "isCheckRunning s1 = isCheckRunning s"
      "previousOverallStockSignature s1 = previousOverallStockSignature s \<Longrightarrow> s1 = s"
      by (auto simp: s1_def detectChange_def)
    have res: "(G = [] \<and> s' = s1 \<and> e = Inr NothingNew)
             \<or> (G \<noteq> [] \<and> s' = markNotified G s1 \<and> (\<exists>r. e = Inr r \<and> found r = G))"
      using assms st
      by (auto simp: checkStockAndNotify_FetchData_def Let_def s1_def[symmetric] G_def[symmetric]
          split: if_splits outcome.splits)
    have mk: "notifiedItemsThisOverallStockCycle (markNotified G s1)
                = notifiedItemsThisOverallStockCycle s1 \<union> set (map resultToken G)"
      "previousOverallStockSignature (markNotified G s1) = previousOverallStockSignature s1"
      "isCheckRunning (markNotified G s1) = isCheckRunning s1"
      by (simp_all add: markNotified_def)
    from res show ?thesis
    proof
      assume "G = [] \<and> s' = s1 \<and> e = Inr NothingNew"
      then show ?thesis using s1 by (auto simp: batchTokens_def)
    next
      assume a: "G \<noteq> [] \<and> s' = markNotified G s1 \<and> (\<exists>r. e = Inr r \<and> found r = G)"
      then obtain r where r: "e = Inr r" "found r = G" by blast
      show ?thesis
        using a r mk s1 fresh by (auto simp: batchTokens_def)
    qed
  qed
  then show "set (case e of Inl u \<Rightarrow> [] | Inr r \<Rightarrow> batchTokens r) \<subseteq> notifiedItemsThisOverallStockCycle s'"
    and "previousOverallStockSignature s' = previousOverallStockSignature s \<Longrightarrow>
           notifiedItemsThisOverallStockCycle s' =
             notifiedItemsThisOverallStockCycle s \<union> set (case e of Inl u \<Rightarrow> [] | Inr r \<Rightarrow> batchTokens r)
           \<and> set (case e of Inl u \<Rightarrow> [] | Inr r \<Rightarrow> batchTokens r) \<inter> notifiedItemsThisOverallStockCycle s = {}"
    and "isCheckRunning s' = isCheckRunning s"
    by blast+
qed

lemma mainScheduler_summary:
  assumes "mainScheduler cfg s now fetched created = (s', r)"
  shows "set (foundAt r) \<subseteq> notifiedItemsThisOverallStockCycle s'"
    and "previousOverallStockSignature s' = previousOverallStockSignature s \<Longrightarrow>
           notifiedItemsThisOverallStockCycle s' =
             notifiedItemsThisOverallStockCycle s \<union> set (foundAt r)
           \<and> set (foundAt r) \<inter> notifiedItemsThisOverallStockCycle s = {}"
    and "\<not> isCheckRunning s \<Longrightarrow> \<not> isCheckRunning s'"
    and "isCheckRunning s \<Longrightarrow> s' = s \<and> (r = None \<or> r = Some Skipped)"
proof -
  have "set (foundAt r) \<subseteq> notifiedItemsThisOverallStockCycle s'
    \<and> (previousOverallStockSignature s' = previousOverallStockSignature s \<longrightarrow>
           notifiedItemsThisOverallStockCycle s' =
             notifiedItemsThisOverallStockCycle s \<union> set (foundAt r)
           \<and> set (foundAt r) \<inter> notifiedItemsThisOverallStockCycle s = {})
    \<and> (\<not> isCheckRunning s \<longrightarrow> \<not> isCheckRunning s')
    \<and> (isCheckRunning s \<longrightarrow> s' = s \<and> (r = None \<or> r = Some Skipped))"
  proof (cases "minute now \<in> set (TARGET_MINUTES cfg) \<and> second now = TARGET_SECONDS cfg
                  \<and> \<not> isCheckRunning s")
    case False
    then show ?thesis
      using assms by (auto simp: mainScheduler_def batchTokens_def split: if_splits)
  next
    case True
    let ?s0 = "s\<lparr>isCheckRunning := True\<rparr>"
    obtain s1 e where ch: "checkStockAndNotify_FetchData cfg ?s0 now fetched created = (s1, e)"
      by (cases "checkStockAndNotify_FetchData cfg ?s0 now fetched created") auto
    note cs = check_FetchData_summary[OF ch]
    have fin: "s' = finallyBlock s1 \<and> foundAt r = (case e of Inl u \<Rightarrow> [] | Inr r \<Rightarrow> batchTokens r)"
      using assms True ch by (auto simp: mainScheduler_def batchTokens_def split: sum.splits)
    show ?thesis
      using fin cs True by (auto simp: finallyBlock_def)
  qed
  then show "set (foundAt r) \<subseteq> notifiedItemsThisOverallStockCycle s'"
    and "previousOverallStockSignature s' = previousOverallStockSignature s \<Longrightarrow>
           notifiedItemsThisOverallStockCycle s' =
             notifiedItemsThisOverallStockCycle s \<union> set (foundAt r)
           \<and> set (foundAt r) \<inter> notifiedItemsThisOverallStockCycle s = {}"
    and "\<not> isCheckRunning s \<Longrightarrow> \<not> isCheckRunning s'"
    and "isCheckRunning s \<Longrightarrow> s' = s \<and> (r = None \<or> r = Some Skipped)"
    by blast+
qed

section \<open>The stock check: results\<close>

text \<open>
  C1. In \<^verbatim>\<open>app.js\<close>, take any invocation of the check, from any state, and any
  invocations that follow it, each of which leaves the stored signature as the first
  one left it (they are in its epoch). Then the tokens of all the batches found by these
  invocations, the first included, are pairwise different: no token is found twice,
  neither in two batches nor twice in one.
\<close>

theorem at_most_once_per_epoch:
  assumes "checkStockAndNotify cfg s0 fetched h sent = (s1, r1)"
    and "\<forall>(s, r) \<in> set (cycles cfg s1 ws).
           previousOverallStockSignature s = previousOverallStockSignature s1"
  shows "distinct (concat (map batchTokens (r1 # map snd (cycles cfg s1 ws))))"
proof -
  note cs = check_summary[OF assms(1)]
  from epoch_aux[OF assms(2)] cs(1,2) show ?thesis
    by (auto simp: comp_def)
qed

lemmas app_eval = checkStockAndNotify_def enter_def afterFetch_def afterSend_def
  finallyBlock_def detectChange_def currentOverallStockSignature_def allCurrentStockItems_def
  categories_def token_def matchKeyword_def toLowerCase_def toLowerCaseChar_def
  isQuietHours_def Let_def

lemma first_Mango:
  "checkStockAndNotify
     \<lparr>QUIET_HOURS_START = 22, QUIET_HOURS_END = 7, KEYWORDS_TO_MONITOR = [''Mango'']\<rparr>
     \<lparr>notifiedItemsThisOverallStockCycle = {}, previousOverallStockSignature = [],
       isCheckRunning = False\<rparr>
     (Returned (Some \<lparr>seedsStock = Some [Named ''Mango''], eggStock = Some [],
                      gearStock = Some []\<rparr>))
     12 sent
   = (\<lparr>notifiedItemsThisOverallStockCycle = {''Mango|Seeds''},
        previousOverallStockSignature = ''Mango|Seeds'', isCheckRunning = False\<rparr>,
      case sent of
        Returned success \<Rightarrow>
          if success
          then AlertSent [\<lparr>name = ''Mango'', category = ''Seeds'', matchedKeyword = ''Mango''\<rparr>]
                 (messageBody [\<lparr>name = ''Mango'', category = ''Seeds'', matchedKeyword = ''Mango''\<rparr>])
          else AlertFailed [\<lparr>name = ''Mango'', category = ''Seeds'', matchedKeyword = ''Mango''\<rparr>]
                 (messageBody [\<lparr>name = ''Mango'', category = ''Seeds'', matchedKeyword = ''Mango''\<rparr>])
      | Threw \<Rightarrow> FatalError [\<lparr>name = ''Mango'', category = ''Seeds'', matchedKeyword = ''Mango''\<rparr>])"
  by (simp add: app_eval)

lemma again_Mango:
  "checkStockAndNotify
     \<lparr>QUIET_HOURS_START = 22, QUIET_HOURS_END = 7, KEYWORDS_TO_MONITOR = [''Mango'']\<rparr>
     \<lparr>notifiedItemsThisOverallStockCycle = {''Mango|Seeds''},
        previousOverallStockSignature = ''Mango|Seeds'', isCheckRunning = False\<rparr>
     (Returned (Some \<lparr>seedsStock = Some [Named ''Mango''], eggStock = Some [],
                      gearStock = Some []\<rparr>))
     12 sent
   = (\<lparr>notifiedItemsThisOverallStockCycle = {''Mango|Seeds''},
        previousOverallStockSignature = ''Mango|Seeds'', isCheckRunning = False\<rparr>,
      NothingNew)"
  by (simp add: app_eval)

theorem at_most_once_per_epoch_witness:
  "checkStockAndNotify
     \<lparr>QUIET_HOURS_START = 22, QUIET_HOURS_END = 7, KEYWORDS_TO_MONITOR = [''Mango'']\<rparr>
     \<lparr>notifiedItemsThisOverallStockCycle = {}, previousOverallStockSignature = [],
       isCheckRunning = False\<rparr>
     (Returned (Some \<lparr>seedsStock = Some [Named ''Mango''], eggStock = Some [],
                      gearStock = Some []\<rparr>))
     12 (Returned True)
   = (\<lparr>notifiedItemsThisOverallStockCycle = {''Mango|Seeds''},
              previousOverallStockSignature = ''Mango|Seeds'', isCheckRunning = False\<rparr>,
      AlertSent [\<lparr>name = ''Mango'', category = ''Seeds'', matchedKeyword = ''Mango''\<rparr>]
        (messageBody [\<lparr>name = ''Mango'', category = ''Seeds'', matchedKeyword = ''Mango''\<rparr>]))
   \<and> map (previousOverallStockSignature \<circ> fst)
         (cycles \<lparr>QUIET_HOURS_START = 22, QUIET_HOURS_END = 7, KEYWORDS_TO_MONITOR = [''Mango'']\<rparr>
            \<lparr>notifiedItemsThisOverallStockCycle = {''Mango|Seeds''},
              previousOverallStockSignature = ''Mango|Seeds'', isCheckRunning = False\<rparr>
            [(Returned (Some \<lparr>seedsStock = Some [Named ''Mango''], eggStock = Some [],
                               gearStock = Some []\<rparr>), 12, Returned True),
             (Returned None, 3, Threw)])
       = [''Mango|Seeds'', ''Mango|Seeds'']
   \<and> map batchTokens
         (AlertSent [\<lparr>name = ''Mango'', category = ''Seeds'', matchedKeyword = ''Mango''\<rparr>]
        (messageBody [\<lparr>name = ''Mango'', category = ''Seeds'', matchedKeyword = ''Mango''\<rparr>])
          # map snd
            (cycles \<lparr>QUIET_HOURS_START = 22, QUIET_HOURS_END = 7, KEYWORDS_TO_MONITOR = [''Mango'']\<rparr>
               \<lparr>notifiedItemsThisOverallStockCycle = {''Mango|Seeds''},
              previousOverallStockSignature = ''Mango|Seeds'', isCheckRunning = False\<rparr>
               [(Returned (Some \<lparr>seedsStock = Some [Named ''Mango''], eggStock = Some [],
                               gearStock = Some []\<rparr>), 12, Returned True),
             (Returned None, 3, Threw)]))
       = [[''Mango|Seeds''], [], []]
   \<and> distinct (concat (map batchTokens
         (AlertSent [\<lparr>name = ''Mango'', category = ''Seeds'', matchedKeyword = ''Mango''\<rparr>]
        (messageBody [\<lparr>name = ''Mango'', category = ''Seeds'', matchedKeyword = ''Mango''\<rparr>])
          # map snd
            (cycles \<lparr>QUIET_HOURS_START = 22, QUIET_HOURS_END = 7, KEYWORDS_TO_MONITOR = [''Mango'']\<rparr>
               \<lparr>notifiedItemsThisOverallStockCycle = {''Mango|Seeds''},
              previousOverallStockSignature = ''Mango|Seeds'', isCheckRunning = False\<rparr>
               [(Returned (Some \<lparr>seedsStock = Some [Named ''Mango''], eggStock = Some [],
                               gearStock = Some []\<rparr>), 12, Returned True),
             (Returned None, 3, Threw)]))))"
proof -
  let ?cfg = "\<lparr>QUIET_HOURS_START = 22, QUIET_HOURS_END = 7, KEYWORDS_TO_MONITOR = [''Mango'']\<rparr>"
  let ?s1 = "\<lparr>notifiedItemsThisOverallStockCycle = {''Mango|Seeds''},
              previousOverallStockSignature = ''Mango|Seeds'', isCheckRunning = False\<rparr>"
  let ?ws = "[(Returned (Some \<lparr>seedsStock = Some [Named ''Mango''], eggStock = Some [],
                               gearStock = Some []\<rparr>), 12, Returned True),
             (Returned None, 3, Threw)]"
  have first: "checkStockAndNotify ?cfg
     \<lparr>notifiedItemsThisOverallStockCycle = {}, previousOverallStockSignature = [],
       isCheckRunning = False\<rparr>
     (Returned (Some \<lparr>seedsStock = Some [Named ''Mango''], eggStock = Some [],
                      gearStock = Some []\<rparr>))
     12 (Returned True)
   = (?s1,
      AlertSent [\<lparr>name = ''Mango'', category = ''Seeds'', matchedKeyword = ''Mango''\<rparr>]
        (messageBody [\<lparr>name = ''Mango'', category = ''Seeds'', matchedKeyword = ''Mango''\<rparr>]))"
    using first_Mango[of "Returned True"] by simp
  have none: "checkStockAndNotify ?cfg ?s1 (Returned None) 3 Threw = (?s1, NoData)"
    by (simp add: checkStockAndNotify_def enter_def afterFetch_def finallyBlock_def)
  have rest: "cycles ?cfg ?s1 ?ws = [(?s1, NothingNew), (?s1, NoData)]"
    by (simp add: again_Mango none)
  have epoch: "\<forall>(s, r) \<in> set (cycles ?cfg ?s1 ?ws).
                 previousOverallStockSignature s = previousOverallStockSignature ?s1"
    unfolding rest by simp
  from at_most_once_per_epoch[OF first epoch] first rest show ?thesis
    by (simp add: batchTokens_def resultToken_def token_def)
qed

text \<open>
  The epoch matters: once the stock has changed, the set is cleared and an item that is
  still there is found again.
\<close>

lemma found_again_after_change:
  "batchTokens (snd (checkStockAndNotify
     \<lparr>QUIET_HOURS_START = 22, QUIET_HOURS_END = 7, KEYWORDS_TO_MONITOR = [''Mango'']\<rparr>
     \<lparr>notifiedItemsThisOverallStockCycle = {''Mango|Seeds''},
       previousOverallStockSignature = ''Mango|Seeds'', isCheckRunning = False\<rparr>
     (Returned (Some \<lparr>seedsStock = Some [Named ''Mango'', Named ''Carrot''],
                      eggStock = Some [], gearStock = Some []\<rparr>))
     12 (Returned True)))
   = [''Mango|Seeds'']"
  by (simp add: app_eval batchTokens_def resultToken_def)

text \<open>
  The scheduler of \<^verbatim>\<open>FetchData.js\<close>: no tick that follows in the same epoch finds a token
  the first one found.
\<close>

lemma epoch_aux_FetchData:
  assumes "\<forall>(s, r) \<in> set (ticks cfg s1 ws).
             previousOverallStockSignature s = previousOverallStockSignature s1"
  shows "\<forall>(s, r) \<in> set (ticks cfg s1 ws).
           set (foundAt r) \<inter> notifiedItemsThisOverallStockCycle s1 = {}"
  using assms
proof (induction ws arbitrary: s1)
  case Nil
  then show ?case by simp
next
  case (Cons w ws)
  obtain now fetched created where w: "w = (now, fetched, created)"
    by (cases w) auto
  obtain s2 r2 where step: "mainScheduler cfg s1 now fetched created = (s2, r2)"
    by (cases "mainScheduler cfg s1 now fetched created") auto
  have unfold: "ticks cfg s1 (w # ws) = (s2, r2) # ticks cfg s2 ws"
    using w step by simp
  have sig2: "previousOverallStockSignature s2 = previousOverallStockSignature s1"
    using Cons.prems unfold by simp
  have rest: "\<forall>(s, r) \<in> set (ticks cfg s2 ws).
                previousOverallStockSignature s = previousOverallStockSignature s2"
    using Cons.prems unfold sig2 by auto
  note ih = Cons.IH[OF rest]
  from mainScheduler_summary(2)[OF step sig2] have n2:
    "notifiedItemsThisOverallStockCycle s2 =
       notifiedItemsThisOverallStockCycle s1 \<union> set (foundAt r2)"
    "set (foundAt r2) \<inter> notifiedItemsThisOverallStockCycle s1 = {}"
    by auto
  show ?case
    unfolding unfold using ih n2 by auto
qed

lemma at_most_once_per_epoch_FetchData:
  assumes "mainScheduler cfg s0 now fetched created = (s1, r1)"
    and "\<forall>(s, r) \<in> set (ticks cfg s1 ws).
           previousOverallStockSignature s = previousOverallStockSignature s1"
  shows "\<forall>(s, r) \<in> set (ticks cfg s1 ws). set (foundAt r) \<inter> set (foundAt r1) = {}"
  using epoch_aux_FetchData[OF assms(2)] mainScheduler_summary(1)[OF assms(1)]
  by fastforce

text \<open>
  C5. In \<^verbatim>\<open>app.js\<close>: when the check reaches the send, every found item is in the set
  already, and the set is the same after the send whatever the send answers; when the
  quiet hours suppress the send, every found item is in the set; the set the scan
  leaves does not depend on the hour; and at the end of every invocation the set
  contains the token of every item the invocation found.
\<close>

theorem marked_before_alert:
  "(afterFetch cfg s fetched h = (s1, AwaitSend items body) \<longrightarrow>
      items \<noteq> [] \<and> set (map resultToken items) \<subseteq> notifiedItemsThisOverallStockCycle s1
      \<and> notifiedItemsThisOverallStockCycle (fst (afterSend s1 items body sent))
          = notifiedItemsThisOverallStockCycle s1)
   \<and> (afterFetch cfg s fetched h = (s1, Finished (QuietSuppressed items body)) \<longrightarrow>
      items \<noteq> [] \<and> set (map resultToken items) \<subseteq> notifiedItemsThisOverallStockCycle s1)
   \<and> notifiedItemsThisOverallStockCycle (fst (afterFetch cfg s fetched h))
       = notifiedItemsThisOverallStockCycle (fst (afterFetch cfg s fetched h'))
   \<and> (checkStockAndNotify cfg s fetched h sent = (s', r) \<longrightarrow>
      set (batchTokens r) \<subseteq> notifiedItemsThisOverallStockCycle s')"
proof (intro conjI impI)
  assume a: "afterFetch cfg s fetched h = (s1, AwaitSend items body)"
  then obtain stock where "fetched = Returned (Some stock)"
    by (cases fetched) (auto simp: afterFetch_def split: option.splits)
  with a afterFetch_stock[of cfg s stock h s1 "AwaitSend items body"]
  show "items \<noteq> []" "set (map resultToken items) \<subseteq> notifiedItemsThisOverallStockCycle s1"
    by auto
  show "notifiedItemsThisOverallStockCycle (fst (afterSend s1 items body sent))
          = notifiedItemsThisOverallStockCycle s1"
    by (simp add: afterSend_def finallyBlock_def)
next
  assume a: "afterFetch cfg s fetched h = (s1, Finished (QuietSuppressed items body))"
  then obtain stock where "fetched = Returned (Some stock)"
    by (cases fetched) (auto simp: afterFetch_def split: option.splits)
  with a afterFetch_stock[of cfg s stock h s1 "Finished (QuietSuppressed items body)"]
  show "items \<noteq> []" "set (map resultToken items) \<subseteq> notifiedItemsThisOverallStockCycle s1"
    by auto
next
  show "notifiedItemsThisOverallStockCycle (fst (afterFetch cfg s fetched h))
       = notifiedItemsThisOverallStockCycle (fst (afterFetch cfg s fetched h'))"
    by (auto simp: afterFetch_def finallyBlock_def Let_def split: outcome.splits option.splits prod.splits)
next
  assume "checkStockAndNotify cfg s fetched h sent = (s', r)"
  then show "set (batchTokens r) \<subseteq> notifiedItemsThisOverallStockCycle s'"
    by (rule check_summary(2))
qed

lemma Mango_at_send:
  "afterFetch
     \<lparr>QUIET_HOURS_START = 22, QUIET_HOURS_END = 7, KEYWORDS_TO_MONITOR = [''Mango'']\<rparr>
     \<lparr>notifiedItemsThisOverallStockCycle = {}, previousOverallStockSignature = [],
       isCheckRunning = True\<rparr>
     (Returned (Some \<lparr>seedsStock = Some [Named ''Mango''], eggStock = Some [],
                      gearStock = Some []\<rparr>))
     12
   = (\<lparr>notifiedItemsThisOverallStockCycle = {''Mango|Seeds''},
        previousOverallStockSignature = ''Mango|Seeds'', isCheckRunning = True\<rparr>,
      AwaitSend [\<lparr>name = ''Mango'', category = ''Seeds'', matchedKeyword = ''Mango''\<rparr>]
        (messageBody [\<lparr>name = ''Mango'', category = ''Seeds'', matchedKeyword = ''Mango''\<rparr>]))"
  by (simp add: app_eval)

theorem marked_before_alert_witness:
  "afterFetch
     \<lparr>QUIET_HOURS_START = 22, QUIET_HOURS_END = 7, KEYWORDS_TO_MONITOR = [''Mango'']\<rparr>
     \<lparr>notifiedItemsThisOverallStockCycle = {}, previousOverallStockSignature = [],
       isCheckRunning = True\<rparr>
     (Returned (Some \<lparr>seedsStock = Some [Named ''Mango''], eggStock = Some [],
                      gearStock = Some []\<rparr>))
     12
   = (\<lparr>notifiedItemsThisOverallStockCycle = {''Mango|Seeds''},
        previousOverallStockSignature = ''Mango|Seeds'', isCheckRunning = True\<rparr>,
      AwaitSend [\<lparr>name = ''Mango'', category = ''Seeds'', matchedKeyword = ''Mango''\<rparr>]
        (messageBody [\<lparr>name = ''Mango'', category = ''Seeds'', matchedKeyword = ''Mango''\<rparr>]))
   \<and> notifiedItemsThisOverallStockCycle
        (fst (afterSend
               \<lparr>notifiedItemsThisOverallStockCycle = {''Mango|Seeds''},
                 previousOverallStockSignature = ''Mango|Seeds'', isCheckRunning = True\<rparr>
               [\<lparr>name = ''Mango'', category = ''Seeds'', matchedKeyword = ''Mango''\<rparr>]
               (messageBody [\<lparr>name = ''Mango'', category = ''Seeds'', matchedKeyword = ''Mango''\<rparr>])
               (Returned False)))
       = {''Mango|Seeds''}"
  using marked_before_alert
    [of "\<lparr>QUIET_HOURS_START = 22, QUIET_HOURS_END = 7, KEYWORDS_TO_MONITOR = [''Mango'']\<rparr>"
      "\<lparr>notifiedItemsThisOverallStockCycle = {}, previousOverallStockSignature = [],
        isCheckRunning = True\<rparr>"
      "Returned (Some \<lparr>seedsStock = Some [Named ''Mango''], eggStock = Some [],
                      gearStock = Some []\<rparr>)"
      12
      "\<lparr>notifiedItemsThisOverallStockCycle = {''Mango|Seeds''},
        previousOverallStockSignature = ''Mango|Seeds'', isCheckRunning = True\<rparr>"
      "[\<lparr>name = ''Mango'', category = ''Seeds'', matchedKeyword = ''Mango''\<rparr>]"
      "messageBody [\<lparr>name = ''Mango'', category = ''Seeds'', matchedKeyword = ''Mango''\<rparr>]"
      "Returned False"]
    Mango_at_send
  by simp

text \<open>In \<^verbatim>\<open>FetchData.js\<close> too the set holds every found token when the tick ends.\<close>

lemma marked_FetchData:
  "mainScheduler cfg s now fetched created = (s', r) \<Longrightarrow>
     set (foundAt r) \<subseteq> notifiedItemsThisOverallStockCycle s'"
  by (rule mainScheduler_summary(1))

text \<open>
  C6. In \<^verbatim>\<open>app.js\<close>, an invocation that finds the lock held returns at once: it does
  not get past \<open>enter\<close>, the state is left as it is, and the report is \<open>Skipped\<close>.
\<close>

theorem skipped_while_running:
  assumes "isCheckRunning s"
  shows "enter s = None \<and> checkStockAndNotify cfg s fetched h sent = (s, Skipped)"
  using assms by (simp add: enter_def checkStockAndNotify_def)

theorem skipped_while_running_witness:
  "enter \<lparr>notifiedItemsThisOverallStockCycle = {}, previousOverallStockSignature = [],
           isCheckRunning = False\<rparr>
     = Some \<lparr>notifiedItemsThisOverallStockCycle = {}, previousOverallStockSignature = [],
              isCheckRunning = True\<rparr>
   \<and> enter \<lparr>notifiedItemsThisOverallStockCycle = {}, previousOverallStockSignature = [],
              isCheckRunning = True\<rparr> = None
   \<and> checkStockAndNotify
        \<lparr>QUIET_HOURS_START = 22, QUIET_HOURS_END = 7, KEYWORDS_TO_MONITOR = [''Mango'']\<rparr>
        \<lparr>notifiedItemsThisOverallStockCycle = {}, previousOverallStockSignature = [],
          isCheckRunning = True\<rparr>
        (Returned (Some \<lparr>seedsStock = Some [Named ''Mango''], eggStock = Some [],
                         gearStock = Some []\<rparr>))
        12 (Returned True)
      = (\<lparr>notifiedItemsThisOverallStockCycle = {}, previousOverallStockSignature = [],
           isCheckRunning = True\<rparr>, Skipped)"
  using skipped_while_running
    [of "\<lparr>notifiedItemsThisOverallStockCycle = {}, previousOverallStockSignature = [],
          isCheckRunning = True\<rparr>"
      "\<lparr>QUIET_HOURS_START = 22, QUIET_HOURS_END = 7, KEYWORDS_TO_MONITOR = [''Mango'']\<rparr>"
      "Returned (Some \<lparr>seedsStock = Some [Named ''Mango''], eggStock = Some [],
                         gearStock = Some []\<rparr>)"
      12 "Returned True"]
  by (simp add: enter_def)

lemma skipped_while_running_FetchData:
  assumes "isCheckRunning s"
  shows "mainScheduler cfg s now fetched created =
           (s, if minute now \<in> set (TARGET_MINUTES cfg) \<and> second now = TARGET_SECONDS cfg
               then Some Skipped else None)"
  using assms by (simp add: mainScheduler_def)

text \<open>
  C7. In \<^verbatim>\<open>app.js\<close>, an invocation that finds the lock free takes it, and the lock is
  free again when the invocation ends, whatever the fetch and the send answer: a
  snapshot with or without a match, no data, or an exception. (An invocation that finds
  the lock held is the skipped one of C6, and leaves it held.)
\<close>

theorem lock_released:
  assumes "\<not> isCheckRunning s"
  shows "(\<exists>s0. enter s = Some s0 \<and> isCheckRunning s0)
         \<and> \<not> isCheckRunning (fst (checkStockAndNotify cfg s fetched h sent))"
proof
  show "\<exists>s0. enter s = Some s0 \<and> isCheckRunning s0"
    using assms by (simp add: enter_def)
  obtain s' r where "checkStockAndNotify cfg s fetched h sent = (s', r)"
    by (cases "checkStockAndNotify cfg s fetched h sent") auto
  from check_summary(4)[OF this assms] this
  show "\<not> isCheckRunning (fst (checkStockAndNotify cfg s fetched h sent))"
    by simp
qed

theorem lock_released_witness:
  "\<not> isCheckRunning \<lparr>notifiedItemsThisOverallStockCycle = {},
                       previousOverallStockSignature = [], isCheckRunning = False\<rparr>
   \<and> \<not> isCheckRunning (fst (checkStockAndNotify
        \<lparr>QUIET_HOURS_START = 22, QUIET_HOURS_END = 7, KEYWORDS_TO_MONITOR = [''Mango'']\<rparr>
        \<lparr>notifiedItemsThisOverallStockCycle = {}, previousOverallStockSignature = [],
          isCheckRunning = False\<rparr>
        Threw 12 Threw))
   \<and> \<not> isCheckRunning (fst (checkStockAndNotify
        \<lparr>QUIET_HOURS_START = 22, QUIET_HOURS_END = 7, KEYWORDS_TO_MONITOR = [''Mango'']\<rparr>
        \<lparr>notifiedItemsThisOverallStockCycle = {}, previousOverallStockSignature = [],
          isCheckRunning = False\<rparr>
        (Returned (Some \<lparr>seedsStock = Some [Named ''Mango''], eggStock = Some [],
                         gearStock = Some []\<rparr>))
        12 Threw))"
  using lock_released
    [of "\<lparr>notifiedItemsThisOverallStockCycle = {}, previousOverallStockSignature = [],
          isCheckRunning = False\<rparr>"
      "\<lparr>QUIET_HOURS_START = 22, QUIET_HOURS_END = 7, KEYWORDS_TO_MONITOR = [''Mango'']\<rparr>"
      Threw 12 Threw]
    lock_released
    [of "\<lparr>notifiedItemsThisOverallStockCycle = {}, previousOverallStockSignature = [],
          isCheckRunning = False\<rparr>"
      "\<lparr>QUIET_HOURS_START = 22, QUIET_HOURS_END = 7, KEYWORDS_TO_MONITOR = [''Mango'']\<rparr>"
      "Returned (Some \<lparr>seedsStock = Some [Named ''Mango''], eggStock = Some [],
                         gearStock = Some []\<rparr>)"
      12 Threw]
  by simp

lemma lock_released_FetchData:
  assumes "\<not> isCheckRunning s"
  shows "\<not> isCheckRunning (fst (mainScheduler cfg s now fetched created))"
proof -
  obtain s' r where "mainScheduler cfg s now fetched created = (s', r)"
    by (cases "mainScheduler cfg s now fetched created") auto
  from mainScheduler_summary(3)[OF this assms] this show ?thesis by simp
qed

text \<open>
  C8. In \<^verbatim>\<open>app.js\<close>, an invocation whose fetch gives no data leaves the state exactly
  as it found it: the stored signature, the set, and the lock.
\<close>

theorem no_data_no_change:
  "checkStockAndNotify cfg s (Returned None) h sent
     = (s, if isCheckRunning s then Skipped else NoData)"
  by (simp add: checkStockAndNotify_def enter_def afterFetch_def finallyBlock_def)

lemma no_data_no_change_FetchData:
  "fst (mainScheduler cfg s now (Returned None) created) = s"
  by (simp add: mainScheduler_def checkStockAndNotify_FetchData_def finallyBlock_def)

section \<open>The message and the scenario\<close>

lemma concat_lines_split:
  "concat (map f (F1 @ r # F2)) = concat (map f F1) @ f r @ concat (map f F2)"
  by simp

lemma messageBody_FetchData_mentions:
  assumes "r \<in> set newlyFound"
  shows "sublist (name r) (messageBody_FetchData cfg now newlyFound)"
proof -
  from assms obtain F1 F2 where F: "newlyFound = F1 @ r # F2"
    by (auto dest: split_list)
  define ps where "ps = ''*GrowAGarden Stock Alert!* '' @ seedling @ '' ('' @ formatted now
       @ '' '' @ TIMEZONE cfg @ '')'' @ newline @ newline
       @ ''New keyword items in stock:'' @ newline
       @ concat (map messageLine_FetchData F1) @ newline @ ''- *''"
  define ss where "ss = ''* (Category: '' @ category r @ '', Keyword: ''
       @ [CHR 0x22] @ matchedKeyword r @ [CHR 0x22] @ '')''
       @ concat (map messageLine_FetchData F2) @ newline @ newline
       @ ''Check now: https://www.roblox.com/games/126884695634066/Grow-a-Garden#ropro-quick-play''"
  have "messageBody_FetchData cfg now newlyFound = ps @ name r @ ss"
    unfolding messageBody_FetchData_def F concat_lines_split ps_def ss_def
    by (simp add: messageLine_FetchData_def)
  then show ?thesis
    unfolding sublist_def by blast
qed

lemma messageBody_mentions:
  assumes "r \<in> set newlyFound"
  shows "sublist (name r) (messageBody newlyFound)"
proof -
  from assms obtain F1 F2 where F: "newlyFound = F1 @ r # F2"
    by (auto dest: split_list)
  define ps where "ps = ''*Grow A Garden Stock Alert!* '' @ seedling @ newline @ newline
       @ ''New items in stock:'' @ newline @ concat (map messageLine F1) @ newline @ ''- *''"
  define ss where "ss = ''* (Category: '' @ category r @ '')'' @ concat (map messageLine F2)"
  have "messageBody newlyFound = ps @ name r @ ss"
    unfolding messageBody_def F concat_lines_split ps_def ss_def
    by (simp add: messageLine_def)
  then show ?thesis
    unfolding sublist_def by blast
qed

lemma newlyFound_Mango_Bug_Egg:
  "newlyFoundKeywordItems [''Mango'', ''Bug Egg'']
     \<lparr>seedsStock = Some [Named ''Mango''], eggStock = Some [Named ''Bug Egg''],
       gearStock = None\<rparr> {}
   = [\<lparr>name = ''Mango'', category = ''Seed'', matchedKeyword = ''Mango''\<rparr>,
      \<lparr>name = ''Bug Egg'', category = ''Egg'', matchedKeyword = ''Bug Egg''\<rparr>]"
  by (simp add: newlyFoundKeywordItems_def findNewKeywordItemsInCategory_def categories_def
      toLowerCase_def toLowerCaseChar_def token_def)

lemma signature_Mango_Bug_Egg:
  "currentOverallStockSignature_FetchData
     \<lparr>seedsStock = Some [Named ''Mango''], eggStock = Some [Named ''Bug Egg''],
       gearStock = None\<rparr>
   = ''Bug Egg|Egg,Mango|Seed''"
  by (simp add: currentOverallStockSignature_FetchData_def allCurrentStockItemsForSignature_def
      categories_def token_def)

text \<open>
  C9. In \<^verbatim>\<open>FetchData.js\<close>, with the keywords Mango and Bug Egg, an empty set and an
  empty stored signature, one check of the snapshot with the seed Mango and the egg
  Bug Egg finds exactly these two items, leaves the set equal to
  \<^verbatim>\<open>{"Mango|Seed", "Bug Egg|Egg"}\<close>, and builds one message, which names both.
\<close>

theorem scenario_Mango_Bug_Egg:
  "notifiedItemsThisOverallStockCycle
     (fst (checkStockAndNotify_FetchData (cfg\<lparr>keywordsToMonitor := [''Mango'', ''Bug Egg'']\<rparr>)
             \<lparr>notifiedItemsThisOverallStockCycle = {}, previousOverallStockSignature = [],
               isCheckRunning = running\<rparr>
             now
             (Returned (Some \<lparr>seedsStock = Some [Named ''Mango''],
                              eggStock = Some [Named ''Bug Egg''], gearStock = None\<rparr>))
             created))
     = {''Mango|Seed'', ''Bug Egg|Egg''}
   \<and> (\<exists>r body.
         snd (checkStockAndNotify_FetchData (cfg\<lparr>keywordsToMonitor := [''Mango'', ''Bug Egg'']\<rparr>)
                \<lparr>notifiedItemsThisOverallStockCycle = {}, previousOverallStockSignature = [],
                  isCheckRunning = running\<rparr>
                now
                (Returned (Some \<lparr>seedsStock = Some [Named ''Mango''],
                                 eggStock = Some [Named ''Bug Egg''], gearStock = None\<rparr>))
                created) = Inr r
         \<and> found r = [\<lparr>name = ''Mango'', category = ''Seed'', matchedKeyword = ''Mango''\<rparr>,
                       \<lparr>name = ''Bug Egg'', category = ''Egg'', matchedKeyword = ''Bug Egg''\<rparr>]
         \<and> length (found r) = 2
         \<and> r \<in> {QuietSuppressed (found r) body, AlertSent (found r) body,
                  AlertFailed (found r) body}
         \<and> sublist ''Mango'' body \<and> sublist ''Bug Egg'' body)"
proof -
  let ?cfg = "cfg\<lparr>keywordsToMonitor := [''Mango'', ''Bug Egg'']\<rparr>"
  let ?F = "[\<lparr>name = ''Mango'', category = ''Seed'', matchedKeyword = ''Mango''\<rparr>,
             \<lparr>name = ''Bug Egg'', category = ''Egg'', matchedKeyword = ''Bug Egg''\<rparr>]"
  let ?body = "messageBody_FetchData ?cfg now ?F"
  let ?run = "checkStockAndNotify_FetchData ?cfg
             \<lparr>notifiedItemsThisOverallStockCycle = {}, previousOverallStockSignature = [],
               isCheckRunning = running\<rparr>
             now
             (Returned (Some \<lparr>seedsStock = Some [Named ''Mango''],
                              eggStock = Some [Named ''Bug Egg''], gearStock = None\<rparr>))
             created"
  have m1: "sublist ''Mango'' ?body"
    using messageBody_FetchData_mentions[of "\<lparr>name = ''Mango'', category = ''Seed'', matchedKeyword = ''Mango''\<rparr>" ?F ?cfg now]
    by simp
  have m2: "sublist ''Bug Egg'' ?body"
    using messageBody_FetchData_mentions[of "\<lparr>name = ''Bug Egg'', category = ''Egg'', matchedKeyword = ''Bug Egg''\<rparr>" ?F ?cfg now]
    by simp
  have st: "notifiedItemsThisOverallStockCycle (fst ?run) = {''Mango|Seed'', ''Bug Egg|Egg''}"
    by (auto simp: checkStockAndNotify_FetchData_def detectChange_def signature_Mango_Bug_Egg
        newlyFound_Mango_Bug_Egg markNotified_def resultToken_def token_def Let_def
        split: outcome.splits)
  have rep: "snd ?run = Inr (QuietSuppressed ?F ?body) \<or> snd ?run = Inr (AlertSent ?F ?body)
             \<or> snd ?run = Inr (AlertFailed ?F ?body)"
    by (auto simp: checkStockAndNotify_FetchData_def detectChange_def signature_Mango_Bug_Egg
        newlyFound_Mango_Bug_Egg Let_def split: outcome.splits)
  from rep obtain r where r: "snd ?run = Inr r" "found r = ?F"
    "r \<in> {QuietSuppressed (found r) ?body, AlertSent (found r) ?body, AlertFailed (found r) ?body}"
    by auto
  show ?thesis
    using st r m1 m2 by (intro conjI exI[of _ r] exI[of _ ?body]) simp_all
qed

text \<open>
  The same scenario in \<^verbatim>\<open>app.js\<close>: its label for seeds is \<^verbatim>\<open>Seeds\<close>, so the set holds
  \<^verbatim>\<open>Mango|Seeds\<close>.
\<close>

lemma scenario_Mango_Bug_Egg_app:
  "notifiedItemsThisOverallStockCycle
     (fst (checkStockAndNotify
             \<lparr>QUIET_HOURS_START = 0, QUIET_HOURS_END = 9,
               KEYWORDS_TO_MONITOR = [''Mango'', ''Bug Egg'']\<rparr>
             \<lparr>notifiedItemsThisOverallStockCycle = {}, previousOverallStockSignature = [],
               isCheckRunning = False\<rparr>
             (Returned (Some \<lparr>seedsStock = Some [Named ''Mango''],
                              eggStock = Some [Named ''Bug Egg''], gearStock = Some []\<rparr>))
             12 (Returned True)))
   = {''Mango|Seeds'', ''Bug Egg|Egg''}"
  by (auto simp: app_eval)

section \<open>The scraper: results\<close>

lemma pushItems_append:
  "pushItems k lis stock =
     stock(k := stock k @ map Named (filter (\<lambda>itemName. itemName \<noteq> []) (map trim lis)))"
  by (induction lis arbitrary: stock) (auto simp: fun_upd_def)

lemma scrapeHeadings_step:
  "scrapeHeadings doc (h # rest) stock =
     scrapeHeadings doc rest
       (stock(stockCategories h := stock (stockCategories h) @ sectionItems doc h))"
  by (auto simp: sectionItems_def pushItems_append split: option.splits)

lemma scrapeHeadings_all:
  "scrapeHeadings doc [SEEDS_STOCK, EGG_STOCK, GEAR_STOCK, HONEY_STOCK, COSMETICS_STOCK]
     (\<lambda>catKey. [])
   = (\<lambda>catKey. case catKey of
        SeedsStock \<Rightarrow> sectionItems doc SEEDS_STOCK
      | EggStock \<Rightarrow> sectionItems doc EGG_STOCK
      | GearStock \<Rightarrow> sectionItems doc GEAR_STOCK @ sectionItems doc HONEY_STOCK
                      @ sectionItems doc COSMETICS_STOCK)"
proof -
  have "scrapeHeadings doc [SEEDS_STOCK, EGG_STOCK, GEAR_STOCK, HONEY_STOCK, COSMETICS_STOCK]
          (\<lambda>catKey. []) catKey
        = (case catKey of
             SeedsStock \<Rightarrow> sectionItems doc SEEDS_STOCK
           | EggStock \<Rightarrow> sectionItems doc EGG_STOCK
           | GearStock \<Rightarrow> sectionItems doc GEAR_STOCK @ sectionItems doc HONEY_STOCK
                           @ sectionItems doc COSMETICS_STOCK)" for catKey
    unfolding scrapeHeadings_step scrapeHeadings.simps(1)
    by (cases catKey) simp_all
  then show ?thesis by (simp add: fun_eq_iff)
qed

lemma sectionItems_named: "it \<in> set (sectionItems doc h) \<Longrightarrow> \<exists>n. it = Named n \<and> n \<noteq> []"
  by (auto simp: sectionItems_def split: option.splits)

text \<open>
  C10. \<^verbatim>\<open>fetchStockData\<close> gives \<open>None\<close> when anything in its \<^verbatim>\<open>try\<close> block throws, and
  has no other way to fail. When it gives a snapshot, the three arrays are there, every
  item in them has a non-empty name, the seeds and the eggs are those of their sections,
  and the gear array holds the items of the gear, honey and cosmetics sections, in this
  order.
\<close>

theorem fetchStockData_snapshot:
  "fetchStockData Threw = None
   \<and> (fetchStockData response = Some stock \<longrightarrow>
        (\<exists>doc. response = Returned doc
           \<and> seedsStock stock = Some (sectionItems doc SEEDS_STOCK)
           \<and> eggStock stock = Some (sectionItems doc EGG_STOCK)
           \<and> gearStock stock = Some (sectionItems doc GEAR_STOCK @ sectionItems doc HONEY_STOCK
                                       @ sectionItems doc COSMETICS_STOCK))
        \<and> (\<forall>catKey. \<exists>items. property stock catKey = Some items
              \<and> (\<forall>it\<in>set items. \<exists>n. it = Named n \<and> n \<noteq> [])))"
proof (intro conjI impI)
  show "fetchStockData Threw = None"
    by (simp add: fetchStockData_def)
next
  assume a: "fetchStockData response = Some stock"
  then obtain doc where doc: "response = Returned doc"
    by (cases response) (auto simp: fetchStockData_def)
  have st: "stock = \<lparr>seedsStock = Some (sectionItems doc SEEDS_STOCK),
                     eggStock = Some (sectionItems doc EGG_STOCK),
                     gearStock = Some (sectionItems doc GEAR_STOCK @ sectionItems doc HONEY_STOCK
                                       @ sectionItems doc COSMETICS_STOCK)\<rparr>"
    using a doc by (auto simp: fetchStockData_def scrapeHeadings_all Let_def simp del: scrapeHeadings.simps)
  show "\<exists>doc. response = Returned doc
           \<and> seedsStock stock = Some (sectionItems doc SEEDS_STOCK)
           \<and> eggStock stock = Some (sectionItems doc EGG_STOCK)
           \<and> gearStock stock = Some (sectionItems doc GEAR_STOCK @ sectionItems doc HONEY_STOCK
                                       @ sectionItems doc COSMETICS_STOCK)"
    using doc st by simp
  show "\<forall>catKey. \<exists>items. property stock catKey = Some items
              \<and> (\<forall>it\<in>set items. \<exists>n. it = Named n \<and> n \<noteq> [])"
  proof
    fix catKey
    show "\<exists>items. property stock catKey = Some items
              \<and> (\<forall>it\<in>set items. \<exists>n. it = Named n \<and> n \<noteq> [])"
      using st sectionItems_named[of _ doc] by (cases catKey) auto
  qed
qed

theorem fetchStockData_snapshot_witness:
  "fetchStockData
     (Returned (\<lambda>h. case h of
                       SEEDS_STOCK \<Rightarrow> Some [''Carrot'', ''  Mango '']
                     | EGG_STOCK \<Rightarrow> None
                     | GEAR_STOCK \<Rightarrow> Some [''Trowel'']
                     | HONEY_STOCK \<Rightarrow> Some [''   '', ''Honey Comb'']
                     | COSMETICS_STOCK \<Rightarrow> Some [''Bench'']))
   = Some \<lparr>seedsStock = Some [Named ''Carrot'', Named ''Mango''], eggStock = Some [],
           gearStock = Some [Named ''Trowel'', Named ''Honey Comb'', Named ''Bench'']\<rparr>
   \<and> gearStock \<lparr>seedsStock = Some [Named ''Carrot'', Named ''Mango''], eggStock = Some [],
           gearStock = Some [Named ''Trowel'', Named ''Honey Comb'', Named ''Bench'']\<rparr>
     = Some (sectionItems (\<lambda>h. case h of
                       SEEDS_STOCK \<Rightarrow> Some [''Carrot'', ''  Mango '']
                     | EGG_STOCK \<Rightarrow> None
                     | GEAR_STOCK \<Rightarrow> Some [''Trowel'']
                     | HONEY_STOCK \<Rightarrow> Some [''   '', ''Honey Comb'']
                     | COSMETICS_STOCK \<Rightarrow> Some [''Bench'']) GEAR_STOCK
             @ sectionItems (\<lambda>h. case h of
                       SEEDS_STOCK \<Rightarrow> Some [''Carrot'', ''  Mango '']
                     | EGG_STOCK \<Rightarrow> None
                     | GEAR_STOCK \<Rightarrow> Some [''Trowel'']
                     | HONEY_STOCK \<Rightarrow> Some [''   '', ''Honey Comb'']
                     | COSMETICS_STOCK \<Rightarrow> Some [''Bench'']) HONEY_STOCK
             @ sectionItems (\<lambda>h. case h of
                       SEEDS_STOCK \<Rightarrow> Some [''Carrot'', ''  Mango '']
                     | EGG_STOCK \<Rightarrow> None
                     | GEAR_STOCK \<Rightarrow> Some [''Trowel'']
                     | HONEY_STOCK \<Rightarrow> Some [''   '', ''Honey Comb'']
                     | COSMETICS_STOCK \<Rightarrow> Some [''Bench'']) COSMETICS_STOCK)"
proof -
  let ?doc = "\<lambda>h. case h of
                       SEEDS_STOCK \<Rightarrow> Some [''Carrot'', ''  Mango '']
                     | EGG_STOCK \<Rightarrow> None
                     | GEAR_STOCK \<Rightarrow> Some [''Trowel'']
                     | HONEY_STOCK \<Rightarrow> Some [''   '', ''Honey Comb'']
                     | COSMETICS_STOCK \<Rightarrow> Some [''Bench'']"
  let ?stock = "\<lparr>seedsStock = Some [Named ''Carrot'', Named ''Mango''], eggStock = Some [],
           gearStock = Some [Named ''Trowel'', Named ''Honey Comb'', Named ''Bench'']\<rparr>"
  have run: "fetchStockData (Returned ?doc) = Some ?stock"
    by (simp add: fetchStockData_def trim_def isWhiteSpace_def fun_upd_def)
  from fetchStockData_snapshot[of "Returned ?doc" ?stock] run show ?thesis
    by simp
qed

section \<open>Quiet hours: results\<close>
text \<open>
  C3. For every hour \<open>h\<close> in 0..23, \<^verbatim>\<open>isQuietHours\<close> of \<^verbatim>\<open>app.js\<close> is true exactly when
  \<open>h\<close> lies in \<open>[start, end)\<close> if \<open>start < end\<close>, and exactly when \<open>h\<close> lies in
  \<open>[start, 24) \<union> [0, end)\<close> if \<open>start \<ge> end\<close>.
\<close>

theorem isQuietHours_window:
  assumes "0 \<le> h" and "h < 24"
  shows "isQuietHours start end h =
           (if start < end then h \<in> {start ..< end}
            else h \<in> {start ..< 24} \<union> {0 ..< end})"
  using assms by (auto simp: isQuietHours_def)

theorem isQuietHours_window_witness:
  "map (isQuietHours 22 7) [0, 6, 7, 21, 22, 23] = [True, True, False, False, True, True]
   \<and> map (isQuietHours 0 9) [0, 8, 9, 23] = [True, True, False, False]"
  using isQuietHours_window [of 0 22 7] isQuietHours_window [of 6 22 7]
    isQuietHours_window [of 7 22 7] isQuietHours_window [of 21 22 7]
    isQuietHours_window [of 22 22 7] isQuietHours_window [of 23 22 7]
    isQuietHours_window [of 0 0 9] isQuietHours_window [of 8 0 9]
    isQuietHours_window [of 9 0 9] isQuietHours_window [of 23 0 9]
  by simp

text \<open>
  The older \<^verbatim>\<open>FetchData.js\<close> agrees with \<^verbatim>\<open>app.js\<close> for a window that does not wrap,
  and is never quiet for one that does.
\<close>

lemma isQuietHours_FetchData_same_day:
  "start < end \<Longrightarrow> isQuietHours_FetchData start end h = isQuietHours start end h"
  by (simp add: isQuietHours_FetchData_def isQuietHours_def)

lemma isQuietHours_FetchData_overnight:
  "end \<le> start \<Longrightarrow> \<not> isQuietHours_FetchData start end h"
  by (simp add: isQuietHours_FetchData_def)

end
